theory Spec2Isabelle
  imports Main
begin

section \<open>PostGraphile subscriptions over websockets: \<open>src/postgraphile/http/subscriptions.ts\<close>\<close>

text \<open>
  The module upgrades an HTTP server to serve GraphQL subscriptions over websockets.
  Its handlers run on one event loop: between two \<open>await\<close>s a handler is atomic. Each
  atomic piece of a handler is a function here, on the state it reads and writes; an
  awaited collaborator (middleware, schema provider, context provider) enters as the
  value it settles with.
\<close>

subsection \<open>Errors\<close>

text \<open>
  What the code throws: an \<open>Error\<close> with its message and, when the code attaches one,
  the list under its \<open>errors\<close> property; or a \<open>TypeError\<close> of the language itself.
\<close>

record GraphQLError =
  message :: string

datatype error = Error string "GraphQLError list option" | TypeError string

subsection \<open>JavaScript values\<close>

text \<open>
  Connection parameters arrive as parsed JSON: any JSON value. Objects and arrays list
  their entries in enumeration order; an object may have an own key \<open>__proto__\<close>, as
  \<open>JSON.parse\<close> makes it. A number is kept as what the module can observe of it:
  whether it is falsy (0, -0 or NaN) and the string that \<open>String\<close> renders it as.
\<close>

datatype jsval =
    JNull
  | JBool bool
  | JNum bool string
  | JStr string
  | JArr "jsval list"
  | JObj "(string \<times> jsval) list"

text \<open>Truthiness, as \<open>if (v)\<close> and \<open>!v\<close> test it.\<close>

fun truthy :: "jsval \<Rightarrow> bool" where
  "truthy JNull = False"
| "truthy (JBool b) = b"
| "truthy (JNum falsy text) = (\<not> falsy)"
| "truthy (JStr s) = (s \<noteq> [])"
| "truthy (JArr xs) = True"
| "truthy (JObj kvs) = True"

text \<open>A property that may be missing: \<open>undefined\<close> is falsy.\<close>

definition truthy_opt :: "jsval option \<Rightarrow> bool" where
  "truthy_opt v = (case v of None \<Rightarrow> False | Some x \<Rightarrow> truthy x)"

text \<open>
  Decimal rendering of a socket id or a status code, as string concatenation and
  template literals give it.
\<close>

definition digit_char :: "nat \<Rightarrow> char" where
  "digit_char d =
     (if d = 0 then CHR ''0'' else if d = 1 then CHR ''1'' else if d = 2 then CHR ''2''
      else if d = 3 then CHR ''3'' else if d = 4 then CHR ''4'' else if d = 5 then CHR ''5''
      else if d = 6 then CHR ''6'' else if d = 7 then CHR ''7'' else if d = 8 then CHR ''8''
      else CHR ''9'')"

fun string_of_nat :: "nat \<Rightarrow> string" where
  "string_of_nat n =
     (if n < 10 then [digit_char n] else string_of_nat (n div 10) @ [digit_char (n mod 10)])"

declare string_of_nat.simps [simp del]

definition string_of_int :: "int \<Rightarrow> string" where
  "string_of_int i = (if i < 0 then CHR ''-'' # string_of_nat (nat (- i)) else string_of_nat (nat i))"

text \<open>\<open>Array.prototype.join\<close> on strings.\<close>

fun join :: "string \<Rightarrow> string list \<Rightarrow> string" where
  "join sep [] = []"
| "join sep [x] = x"
| "join sep (x # y # ys) = x @ sep @ join sep (y # ys)"

text \<open>The results of a list of conversions, or the first error among them.\<close>

fun all_or_first_error :: "(error + 'a) list \<Rightarrow> error + 'a list" where
  "all_or_first_error [] = Inr []"
| "all_or_first_error (Inl e # rs) = Inl e"
| "all_or_first_error (Inr x # rs) =
     (case all_or_first_error rs of Inl e \<Rightarrow> Inl e | Inr xs \<Rightarrow> Inr (x # xs))"

text \<open>
  \<open>String(v)\<close>. An array joins the strings of its elements with commas, \<open>null\<close>
  counting as the empty string. An object is converted by its \<open>toString\<close>: the
  inherited one gives \<open>[object Object]\<close>; an own entry \<open>toString\<close> hides it, and as no
  JSON value is callable (and the inherited \<open>valueOf\<close> gives back the object) the
  conversion then throws a \<open>TypeError\<close>.
\<close>

fun js_String :: "jsval \<Rightarrow> error + string" where
  "js_String JNull = Inr ''null''"
| "js_String (JBool b) = Inr (if b then ''true'' else ''false'')"
| "js_String (JNum falsy text) = Inr text"
| "js_String (JStr s) = Inr s"
| "js_String (JArr xs) =
     (case all_or_first_error
             (map (\<lambda>x. case x of JNull \<Rightarrow> Inr [] | _ \<Rightarrow> js_String x) xs) of
        Inl e \<Rightarrow> Inl e
      | Inr strs \<Rightarrow> Inr (join '','' strs))"
| "js_String (JObj kvs) =
     (if map_of kvs ''toString'' = None then Inr ''[object Object]''
      else Inl (TypeError ''Cannot convert object to primitive value''))"

text \<open>
  \<open>Object.keys(obj)\<close> with the values \<open>obj[key]\<close>: the own enumerable entries, in
  order. It throws on \<open>undefined\<close> (\<open>None\<close> here) and \<open>null\<close>; an array has its
  indices, a string the indices of its characters, a boolean or a number nothing.
\<close>

definition own_entries :: "jsval option \<Rightarrow> error + (string \<times> jsval) list" where
  "own_entries obj =
     (case obj of
        None \<Rightarrow> Inl (TypeError ''Cannot convert undefined or null to object'')
      | Some JNull \<Rightarrow> Inl (TypeError ''Cannot convert undefined or null to object'')
      | Some (JObj kvs) \<Rightarrow> Inr kvs
      | Some (JArr xs) \<Rightarrow> Inr (zip (map string_of_nat [0..<length xs]) xs)
      | Some (JStr s) \<Rightarrow> Inr (zip (map string_of_nat [0..<length s]) (map (\<lambda>c. JStr [c]) s))
      | Some (JBool b) \<Rightarrow> Inr []
      | Some (JNum falsy text) \<Rightarrow> Inr [])"

text \<open>
  The object \<open>lowerCaseKeys\<close> builds from \<open>{}\<close>: its own entries and its prototype,
  which starts as \<open>Object.prototype\<close> and can become \<open>null\<close> or a value of the
  parameters.
\<close>

datatype proto = ObjectPrototype | NullPrototype | ProtoValue jsval

record memo =
  memo_own :: "string \<rightharpoonup> jsval"
  memo_proto :: proto

definition empty_memo :: memo where
  "empty_memo = \<lparr>memo_own = Map.empty, memo_proto = ObjectPrototype\<rparr>"

text \<open>
  Whether an assignment to \<open>memo['__proto__']\<close> reaches the setter of
  \<open>Object.prototype\<close>: the memo has no own entry of that name, and the prototype chain
  leads to \<open>Object.prototype\<close> without an own data entry of that name on the way.
\<close>

definition inherits_proto_setter :: "memo \<Rightarrow> bool" where
  "inherits_proto_setter m =
     (memo_own m ''__proto__'' = None \<and>
      (case memo_proto m of
         ObjectPrototype \<Rightarrow> True
       | NullPrototype \<Rightarrow> False
       | ProtoValue (JObj kvs) \<Rightarrow> map_of kvs ''__proto__'' = None
       | ProtoValue other \<Rightarrow> True))"

text \<open>
  \<open>memo[k] = v\<close>. Through the setter, an object, an array or \<open>null\<close> becomes the
  prototype of the memo and any other value is ignored; every other assignment writes
  an own entry.
\<close>

definition memo_set :: "memo \<Rightarrow> string \<Rightarrow> jsval \<Rightarrow> memo" where
  "memo_set m k v =
     (if k = ''__proto__'' \<and> inherits_proto_setter m then
        (case v of
           JObj kvs \<Rightarrow> m\<lparr>memo_proto := ProtoValue v\<rparr>
         | JArr xs \<Rightarrow> m\<lparr>memo_proto := ProtoValue v\<rparr>
         | JNull \<Rightarrow> m\<lparr>memo_proto := NullPrototype\<rparr>
         | other \<Rightarrow> m)
      else m\<lparr>memo_own := (memo_own m)(k \<mapsto> v)\<rparr>)"

text \<open>
  \<open>memo[k]\<close> for a name \<open>k\<close>, such as \<open>authorization\<close>, that the built-in prototypes do
  not define and that is no index or \<open>length\<close> of an array: the own entry, or else the
  own entry of the object that is the prototype.
\<close>

definition memo_get :: "memo \<Rightarrow> string \<Rightarrow> jsval option" where
  "memo_get m k =
     (case memo_own m k of
        Some v \<Rightarrow> Some v
      | None \<Rightarrow> (case memo_proto m of ProtoValue (JObj kvs) \<Rightarrow> map_of kvs k | other \<Rightarrow> None))"

subsection \<open>Sockets and requests\<close>

text \<open>
  The HTTP request of the upgrade, with what the module reads and writes on it: its
  URL, its headers (lower-cased names, string values), whether a \<open>res\<close> property is
  present, and the two properties \<open>onConnect\<close> adds.
\<close>

type_synonym headers = "string \<rightharpoonup> string"

record request =
  url :: string
  headers :: headers
  res :: bool
  connectionParams :: "jsval option"
  normalizedConnectionParams :: "memo option"

text \<open>The pseudo-response \<open>new ServerResponse(req)\<close>, named by the request it was built for.\<close>

datatype response = ServerResponse request

text \<open>
  The fields the module bolts onto a websocket: \<open>postgraphileId\<close>, \<open>__postgraphileReq\<close>,
  \<open>__postgraphileRes\<close>, \<open>postgraphileHeaders\<close>. \<open>None\<close> is \<open>undefined\<close>.
\<close>

record socket =
  postgraphileId :: "nat option"
  postgraphileReq :: "request option"
  postgraphileRes :: "response option"
  postgraphileHeaders :: "(string \<rightharpoonup> jsval) option"

subsection \<open>The keepalive registry\<close>

text \<open>
  \<open>deferred()\<close> makes a promise object with its \<open>resolve\<close> exposed; the code adds a
  \<open>context\<close> property. Objects live in a store, a handle is an index into it.
  \<open>resolveCalls\<close> counts the calls of \<open>resolve\<close> on the object: it is pending while 0.
\<close>

record 'ctx Deferred =
  deferred_context :: 'ctx
  resolveCalls :: nat

text \<open>A slot of \<open>keepalivePromisesByContextKey\<close>: never written, \<open>null\<close>, or a promise.\<close>

datatype slot = Absent | Null | Promise nat

record 'ctx registry =
  promises :: "'ctx Deferred list"
  keepalivePromisesByContextKey :: "string \<Rightarrow> slot"

definition empty_registry :: "'ctx registry" where
  "empty_registry = \<lparr>promises = [], keepalivePromisesByContextKey = (\<lambda>k. Absent)\<rparr>"

text \<open>\<open>ws['postgraphileId'] + '|' + opId\<close>; an unset id concatenates as \<open>undefined\<close>.\<close>

definition contextKey :: "socket \<Rightarrow> string \<Rightarrow> string" where
  "contextKey ws opId =
     (case postgraphileId ws of None \<Rightarrow> ''undefined'' | Some n \<Rightarrow> string_of_nat n)
       @ ''|'' @ opId"

text \<open>
  \<open>promise.resolve()\<close> on the object behind a handle. A handle read from a slot names
  an object of the store; for any other number the store is left as it is.
\<close>

definition resolve :: "nat \<Rightarrow> 'ctx Deferred list \<Rightarrow> 'ctx Deferred list" where
  "resolve h ps =
     (if h < length ps then ps[h := (ps ! h)\<lparr>resolveCalls := Suc (resolveCalls (ps ! h))\<rparr>]
      else ps)"

definition releaseContextForSocketAndOpId ::
  "socket \<Rightarrow> string \<Rightarrow> 'ctx registry \<Rightarrow> 'ctx registry" where
  "releaseContextForSocketAndOpId ws opId r =
     (case keepalivePromisesByContextKey r (contextKey ws opId) of
        Promise h \<Rightarrow>
          r\<lparr>promises := resolve h (promises r),
            keepalivePromisesByContextKey :=
              (keepalivePromisesByContextKey r)(contextKey ws opId := Null)\<rparr>
      | _ \<Rightarrow> r)"

text \<open>Returns the handle of the new promise and the registry.\<close>

definition addContextForSocketAndOpId ::
  "'ctx \<Rightarrow> socket \<Rightarrow> string \<Rightarrow> 'ctx registry \<Rightarrow> nat \<times> 'ctx registry" where
  "addContextForSocketAndOpId ctx ws opId r =
     (let r1 = releaseContextForSocketAndOpId ws opId r;
          promise = length (promises r1)
      in (promise,
          r1\<lparr>promises := promises r1 @ [\<lparr>deferred_context = ctx, resolveCalls = 0\<rparr>],
             keepalivePromisesByContextKey :=
               (keepalivePromisesByContextKey r1)(contextKey ws opId := Promise promise)\<rparr>))"

subsection \<open>Runs of the registry\<close>

text \<open>
  The registry is private to the module: only \<open>getContext\<close> (through
  \<open>addContextForSocketAndOpId\<close>) and \<open>onOperationComplete\<close> (through
  \<open>releaseContextForSocketAndOpId\<close>) touch it, each in one atomic step. A state of the
  registry is what a finite sequence of such calls makes of the empty one.
\<close>

datatype 'ctx registry_op = Add 'ctx socket string | Release socket string

fun registry_step :: "'ctx registry \<Rightarrow> 'ctx registry_op \<Rightarrow> 'ctx registry" where
  "registry_step r (Add ctx ws opId) = snd (addContextForSocketAndOpId ctx ws opId r)"
| "registry_step r (Release ws opId) = releaseContextForSocketAndOpId ws opId r"

definition run_registry :: "'ctx registry_op list \<Rightarrow> 'ctx registry" where
  "run_registry ops = foldl registry_step empty_registry ops"

definition registered_live :: "'ctx registry \<Rightarrow> bool" where
  "registered_live r \<longleftrightarrow>
     (\<forall>k h. keepalivePromisesByContextKey r k = Promise h
        \<longrightarrow> h < length (promises r) \<and> resolveCalls (promises r ! h) = 0)"

definition one_slot_per_handle :: "'ctx registry \<Rightarrow> bool" where
  "one_slot_per_handle r \<longleftrightarrow>
     (\<forall>k k' h. keepalivePromisesByContextKey r k = Promise h
        \<longrightarrow> keepalivePromisesByContextKey r k' = Promise h \<longrightarrow> k = k')"

definition unregistered_resolved_once :: "'ctx registry \<Rightarrow> bool" where
  "unregistered_resolved_once r \<longleftrightarrow>
     (\<forall>h. h < length (promises r) \<longrightarrow> (\<forall>k. keepalivePromisesByContextKey r k \<noteq> Promise h)
        \<longrightarrow> resolveCalls (promises r ! h) = 1)"

definition registry_inv :: "'ctx registry \<Rightarrow> bool" where
  "registry_inv r \<longleftrightarrow> registered_live r \<and> one_slot_per_handle r \<and> unregistered_resolved_once r"

subsection \<open>The pseudo-response's \<open>writeHead\<close>\<close>

text \<open>
  What the override does to the world: it logs with \<open>console.error\<close> and calls
  \<open>socket.close()\<close> on the socket it closes over. It writes nothing else and returns
  nothing. The parameters are positional: \<open>statusCode\<close> (a number; \<open>None\<close> when the
  argument is missing), \<open>_statusMessage\<close>, which the body never reads, and \<open>headers\<close>.
\<close>

datatype effect = ConsoleError string | SocketClose

text \<open>\<open>statusCode && statusCode > 200\<close>: a missing argument and 0 are falsy.\<close>

definition status_above_200 :: "int option \<Rightarrow> bool" where
  "status_above_200 statusCode =
     (case statusCode of None \<Rightarrow> False | Some n \<Rightarrow> n \<noteq> 0 \<and> n > 200)"

text \<open>The template literal renders a missing status as \<open>undefined\<close>.\<close>

definition status_text :: "int option \<Rightarrow> string" where
  "status_text statusCode =
     (case statusCode of None \<Rightarrow> ''undefined'' | Some n \<Rightarrow> string_of_int n)"

definition writeHead :: "int option \<Rightarrow> jsval option \<Rightarrow> jsval option \<Rightarrow> effect list" where
  "writeHead statusCode statusMessage hdrs =
     (if status_above_200 statusCode then
        [ConsoleError (''Something used 'writeHead' to write a '' @ [CHR 0x27]
           @ status_text statusCode @ [CHR 0x27]
           @ '' error for websockets - check the middleware you're passing!''),
         SocketClose]
      else if truthy_opt hdrs then
        [ConsoleError ''Passing headers to 'writeHead' is not supported with websockets currently - check the middleware you're passing'',
         SocketClose]
      else [])"

subsection \<open>The upgrade listener\<close>

text \<open>
  The fields of the middleware's \<open>options\<close> that the module reads. A middleware is seen
  through the signal it gives: it calls \<open>next()\<close>, it calls \<open>next(err)\<close> with a truthy
  error (or throws), or it never calls \<open>next\<close>.
\<close>

datatype next_signal = NextOk | NextErr error | NoNext

type_synonym middleware = "request \<Rightarrow> response \<Rightarrow> next_signal"

record options =
  graphqlRoute :: "string option"
  websocketMiddlewares :: "middleware list option"
  middlewares :: "middleware list option"

text \<open>\<open>options.graphqlRoute || '/graphql'\<close>: the empty string is falsy.\<close>

definition graphqlRoute_of :: "options \<Rightarrow> string" where
  "graphqlRoute_of opts =
     (case graphqlRoute opts of None \<Rightarrow> ''/graphql''
      | Some r \<Rightarrow> if r = [] then ''/graphql'' else r)"

text \<open>
  \<open>parseurl\<close> is a library: it gives \<open>undefined\<close> (\<open>None\<close> here) or a parsed URL whose
  \<open>pathname\<close> is a string or \<open>null\<close>. \<open>wss.handleUpgrade\<close> is the websocket library's
  handshake: the listener hands it the request, the raw socket, the head and the
  callback to run on the websocket it makes.
\<close>

record parsed_url =
  pathname :: "string option"

datatype 'ws wss_event = Emit string 'ws request

datatype ('raw, 'head, 'ws) upgrade_effect =
  HandleUpgrade request 'raw 'head "'ws \<Rightarrow> 'ws wss_event list"

definition on_upgrade ::
  "string \<Rightarrow> (request \<Rightarrow> parsed_url option) \<Rightarrow> request \<Rightarrow> 'raw \<Rightarrow> 'head
     \<Rightarrow> ('raw, 'head, 'ws) upgrade_effect list" where
  "on_upgrade route parseUrl req rawSocket head =
     (let pathname = (case parseUrl req of None \<Rightarrow> Some [] | Some u \<Rightarrow> pathname u);
          isGraphqlRoute = (pathname = Some route)
      in if isGraphqlRoute
         then [HandleUpgrade req rawSocket head (\<lambda>ws. [Emit ''connection'' ws req])]
         else [])"

subsection \<open>Enhancing the server\<close>

text \<open>
  The HTTP server as the module changes it: the marker property, the upgrade listeners
  attached (each named by the route it closes over) and the subscription servers
  created (each named by its schema). The awaited \<open>getGraphQLSchema()\<close> enters as its
  result; the marker is set before that \<open>await\<close>.
\<close>

record 'schema server =
  postgraphileSubscriptionsEnabled :: bool
  upgradeListeners :: "string list"
  subscriptionServers :: "'schema list"

definition enhanceHttpServerWithSubscriptions ::
  "'schema server \<Rightarrow> options \<Rightarrow> error + 'schema \<Rightarrow> error option \<times> 'schema server" where
  "enhanceHttpServerWithSubscriptions websocketServer opts schemaResult =
     (if postgraphileSubscriptionsEnabled websocketServer then (None, websocketServer)
      else
        let marked = websocketServer\<lparr>postgraphileSubscriptionsEnabled := True\<rparr>
        in case schemaResult of
             Inl e \<Rightarrow> (Some e, marked)
           | Inr schema \<Rightarrow>
               (None, marked\<lparr>upgradeListeners := upgradeListeners marked @ [graphqlRoute_of opts],
                             subscriptionServers := subscriptionServers marked @ [schema]\<rparr>))"

subsection \<open>The connection handler\<close>

text \<open>
  \<open>String.prototype.toLowerCase\<close> belongs to the language and knows all of Unicode:
  the handler's functions take it as a parameter. On ASCII strings it is the function
  below, which the examples use.
\<close>

definition lower_char :: "char \<Rightarrow> char" where
  "lower_char c =
     (case map_of (zip ''ABCDEFGHIJKLMNOPQRSTUVWXYZ'' ''abcdefghijklmnopqrstuvwxyz'') c of
        None \<Rightarrow> c | Some l \<Rightarrow> l)"

definition ascii_toLowerCase :: "string \<Rightarrow> string" where
  "ascii_toLowerCase s = map lower_char s"

text \<open>
  \<open>Object.keys(obj).reduce(...)\<close>, started from \<open>{}\<close>: the keys in enumeration order,
  each assigned on the memo under its lower-cased name with the value \<open>obj[key]\<close>. A
  later key overwrites an earlier one that lower-cases to the same name; a key that
  lower-cases to \<open>__proto__\<close> can change the memo's prototype instead of adding an
  entry. \<open>Object.keys\<close> throws when the parameters are missing or \<open>null\<close>.
\<close>

definition lowerCaseKeys :: "(string \<Rightarrow> string) \<Rightarrow> jsval option \<Rightarrow> error + memo" where
  "lowerCaseKeys toLowerCase obj =
     (case own_entries obj of
        Inl e \<Rightarrow> Inl e
      | Inr kvs \<Rightarrow>
          Inr (foldl (\<lambda>memo (key, v). memo_set memo (toLowerCase key) v) empty_memo kvs))"

text \<open>\<open>!request.headers.authorization\<close>: a missing header and the empty string are falsy.\<close>

definition header_truthy :: "string option \<Rightarrow> bool" where
  "header_truthy h = (case h of None \<Rightarrow> False | Some s \<Rightarrow> s \<noteq> [])"

text \<open>
  \<open>onConnect\<close> takes the connection parameters, the socket and the request of the
  connection context, and the module's \<open>socketId\<close> counter; it gives back what it throws
  (if it does), the socket, the request as it leaves it, and the counter. The id is
  assigned before the request is checked. \<open>lowerCaseKeys\<close> can throw before anything
  is written on the request; \<open>String(...)\<close> can throw after the request has its two
  new properties and sits on the socket, and before \<open>postgraphileHeaders\<close> is set.
  The socket's \<open>__postgraphileReq\<close> is the request object itself, so it shows the
  request as the handler leaves it.
\<close>

definition onConnect ::
  "(string \<Rightarrow> string) \<Rightarrow> jsval option \<Rightarrow> socket \<Rightarrow> request option \<Rightarrow> nat
     \<Rightarrow> error option \<times> socket \<times> request option \<times> nat" where
  "onConnect toLowerCase params sock request socketId =
     (let socketId1 = socketId + 1;
          sock1 = sock\<lparr>postgraphileId := Some socketId1\<rparr>
      in case request of
           None \<Rightarrow> (Some (Error ''No request!'' None), sock1, None, socketId1)
         | Some req \<Rightarrow>
            (case lowerCaseKeys toLowerCase params of
               Inl e \<Rightarrow> (Some e, sock1, Some req, socketId1)
             | Inr normalized \<Rightarrow>
                 let req1 = req\<lparr>connectionParams := params,
                               normalizedConnectionParams := Some normalized\<rparr>;
                     backfilled =
                       (case memo_get normalized ''authorization'' of
                          None \<Rightarrow> Inr req1
                        | Some v \<Rightarrow>
                            if \<not> header_truthy (headers req1 ''authorization'') \<and> truthy v
                            then (case js_String v of
                                    Inl e \<Rightarrow> Inl e
                                  | Inr s \<Rightarrow>
                                      Inr (req1\<lparr>headers := (headers req1)(''authorization'' \<mapsto> s)\<rparr>))
                            else Inr req1)
                 in case backfilled of
                      Inl e \<Rightarrow> (Some e, sock1\<lparr>postgraphileReq := Some req1\<rparr>, Some req1, socketId1)
                    | Inr req2 \<Rightarrow>
                        (None,
                         sock1\<lparr>postgraphileReq := Some req2,
                               postgraphileHeaders :=
                                 Some (memo_own normalized
                                         ++ (\<lambda>k. map_option JStr (headers req2 k)))\<rparr>,
                         Some req2,
                         socketId1)))"

text \<open>What \<open>onConnect\<close> throws, and a header of the request as \<open>onConnect\<close> leaves it.\<close>

definition onConnect_thrown ::
  "(string \<Rightarrow> string) \<Rightarrow> jsval option \<Rightarrow> socket \<Rightarrow> request \<Rightarrow> nat \<Rightarrow> error option" where
  "onConnect_thrown toLowerCase params sock req socketId =
     fst (onConnect toLowerCase params sock (Some req) socketId)"

definition header_after_onConnect ::
  "string \<Rightarrow> (string \<Rightarrow> string) \<Rightarrow> jsval option \<Rightarrow> socket \<Rightarrow> request \<Rightarrow> nat
     \<Rightarrow> string option" where
  "header_after_onConnect name toLowerCase params sock req socketId =
     (case fst (snd (snd (onConnect toLowerCase params sock (Some req) socketId))) of
        None \<Rightarrow> None
      | Some req' \<Rightarrow> headers req' name)"

subsection \<open>The pseudo-response bridge\<close>

text \<open>
  \<open>options.websocketMiddlewares || options.middlewares\<close>, with the parameter's default
  \<open>[]\<close>; an array is truthy even when empty.
\<close>

definition middlewares_of :: "options \<Rightarrow> middleware list" where
  "middlewares_of opts =
     (case websocketMiddlewares opts of
        Some ms \<Rightarrow> ms
      | None \<Rightarrow> (case middlewares opts of Some ms \<Rightarrow> ms | None \<Rightarrow> []))"

text \<open>
  \<open>applyMiddleware\<close> awaits one promise per middleware, in order: the promise of the
  chain is fulfilled when every middleware called \<open>next()\<close>, rejected at the first
  \<open>next(err)\<close>, and never settles when a middleware never calls \<open>next\<close>.
\<close>

datatype outcome = Completed | Rejected error | NeverSettles

fun applyMiddleware :: "middleware list \<Rightarrow> request \<Rightarrow> response \<Rightarrow> outcome" where
  "applyMiddleware [] req dummyRes = Completed"
| "applyMiddleware (m # ms) req dummyRes =
     (case m req dummyRes of
        NextOk \<Rightarrow> applyMiddleware ms req dummyRes
      | NextErr e \<Rightarrow> Rejected e
      | NoNext \<Rightarrow> NeverSettles)"

text \<open>
  \<open>reqResFromSocket\<close> is \<open>async\<close> with one \<open>await\<close>, so it runs in two atomic pieces.
  The first runs up to the \<open>await\<close>: it throws, or returns the cached pair, or has made
  a pseudo-response, started the middleware chain and is suspended. The second runs
  when the chain's promise settles: a rejection is thrown on; otherwise the
  pseudo-response is cached on the socket and the pair returned.
\<close>

datatype entered = Return request response | Await request response

definition reqResFromSocket_enter :: "socket \<Rightarrow> error + entered" where
  "reqResFromSocket_enter sock =
     (case postgraphileReq sock of
        None \<Rightarrow> Inl (Error ''req could not be extracted'' None)
      | Some req \<Rightarrow>
          if res req then
            Inl (Error ''Please get in touch with Benjie; we weren't expecting req.res to be present but we want to reserve it for future usage.'' None)
          else
            (case postgraphileRes sock of
               Some dummyRes \<Rightarrow> Inr (Return req dummyRes)
             | None \<Rightarrow> Inr (Await req (ServerResponse req))))"

definition reqResFromSocket_resume ::
  "error option \<Rightarrow> request \<Rightarrow> response \<Rightarrow> socket \<Rightarrow> (error + request \<times> response) \<times> socket" where
  "reqResFromSocket_resume rejection req dummyRes sock =
     (case rejection of
        Some e \<Rightarrow> (Inl e, sock)
      | None \<Rightarrow> (Inr (req, dummyRes), sock\<lparr>postgraphileRes := Some dummyRes\<rparr>))"

text \<open>
  One socket on the event loop. Its state: the socket, the calls of \<open>reqResFromSocket\<close>
  suspended at the \<open>await\<close> (each with its request, its pseudo-response and the way its
  chain will settle), and the number of times \<open>applyMiddleware\<close> has been called for the
  socket. An event is a call of \<open>reqResFromSocket\<close> by some operation, or the settling
  of the chain of the i-th suspended call, which resumes that call.
\<close>

record bridge =
  bridge_socket :: socket
  suspended :: "(request \<times> response \<times> outcome) list"
  passes :: nat

datatype event = CallReqRes | SettleChain nat

fun bridge_step :: "options \<Rightarrow> bridge \<Rightarrow> event \<Rightarrow> bridge" where
  "bridge_step opts b CallReqRes =
     (case reqResFromSocket_enter (bridge_socket b) of
        Inl e \<Rightarrow> b
      | Inr (Return req dummyRes) \<Rightarrow> b
      | Inr (Await req dummyRes) \<Rightarrow>
          b\<lparr>suspended := suspended b @ [(req, dummyRes, applyMiddleware (middlewares_of opts) req dummyRes)],
            passes := passes b + 1\<rparr>)"
| "bridge_step opts b (SettleChain i) =
     (if i < length (suspended b) then
        (case suspended b ! i of
           (req, dummyRes, NeverSettles) \<Rightarrow> b
         | (req, dummyRes, Completed) \<Rightarrow>
             b\<lparr>bridge_socket := snd (reqResFromSocket_resume None req dummyRes (bridge_socket b)),
               suspended := take i (suspended b) @ drop (Suc i) (suspended b)\<rparr>
         | (req, dummyRes, Rejected e) \<Rightarrow>
             b\<lparr>bridge_socket := snd (reqResFromSocket_resume (Some e) req dummyRes (bridge_socket b)),
               suspended := take i (suspended b) @ drop (Suc i) (suspended b)\<rparr>)
      else b)"

definition run_bridge :: "options \<Rightarrow> bridge \<Rightarrow> event list \<Rightarrow> bridge" where
  "run_bridge opts b evs = foldl (bridge_step opts) b evs"

text \<open>Calls that do not overlap: each is resumed before the next one starts.\<close>

definition one_after_another :: "nat \<Rightarrow> event list" where
  "one_after_another n = concat (replicate n [CallReqRes, SettleChain 0])"

text \<open>A socket just connected: it has its request, no pseudo-response yet.\<close>

definition connected :: "request \<Rightarrow> bridge" where
  "connected req =
     \<lparr>bridge_socket = \<lparr>postgraphileId = Some 1, postgraphileReq = Some req, postgraphileRes = None,
                            postgraphileHeaders = None\<rparr>,
      suspended = [], passes = 0\<rparr>"

definition options_with :: "middleware list \<Rightarrow> options" where
  "options_with ms = \<lparr>graphqlRoute = None, websocketMiddlewares = Some ms, middlewares = None\<rparr>"

definition accepting :: middleware where
  "accepting req dummyRes = NextOk"

definition refusing :: middleware where
  "refusing req dummyRes = NextErr (Error ''unauthorized'' None)"

subsection \<open>The operation handler\<close>

text \<open>
  The execution parameters of one start message. The query is a string or a parsed
  document. \<open>formatResponse\<close> is a closure: the field holds the pair it closes over.
  Schemas, documents and validation rules belong to the GraphQL library and are left
  abstract.
\<close>

record ('schema, 'doc) params =
  params_schema :: 'schema
  params_query :: "string + 'doc"
  params_variables :: "string \<rightharpoonup> jsval"
  params_operationName :: "string option"
  params_context :: "string \<rightharpoonup> jsval"
  params_formatResponse :: "(request \<times> response) option"

text \<open>
  A plugin hook, by the two names the handler calls it with. Called with
  \<open>postgraphile:ws:onOperation\<close> it is handed the \<open>params\<close> object itself: it may throw
  (a hook that returns no object makes the handler throw on the next line, which comes
  to the same), and otherwise gives what it returns together with the \<open>params\<close> object
  as it leaves it (the same value twice when it returns the object it was given). Called with
  \<open>postgraphile:validationRules\<close> it is handed a rule list, the pair, the variables and
  the operation name, and gives the per-operation rules or throws. It is not handed the
  \<open>params\<close> object then, but a plugin that kept the reference from the first call can
  still write to the object: so this call, too, takes the \<open>params\<close> object as it finds
  it and gives it back as it leaves it.
\<close>

record ('schema, 'doc, 'rule) hook =
  on_ws_onOperation ::
    "('schema, 'doc) params \<Rightarrow> error + ('schema, 'doc) params \<times> ('schema, 'doc) params"
  on_validationRules ::
    "'rule list \<Rightarrow> request \<Rightarrow> response \<Rightarrow> (string \<rightharpoonup> jsval) \<Rightarrow> string option
       \<Rightarrow> ('schema, 'doc) params \<Rightarrow> error + 'rule list \<times> ('schema, 'doc) params"

text \<open>
  What the handler calls and does not define: \<open>options.pluginHook\<close>, which may be
  missing; \<open>pluginHook\<close>, the hook that \<open>pluginHookFromOptions(options)\<close> gave when the
  server was enhanced (a function of another module: the hook of the options when there
  is one); the library's \<open>parse\<close> and \<open>validate\<close>. Each of them may throw.
\<close>

record ('schema, 'doc, 'rule) collaborators =
  options_pluginHook :: "('schema, 'doc, 'rule) hook option"
  pluginHook :: "('schema, 'doc, 'rule) hook"
  parse :: "string \<Rightarrow> error + 'doc"
  validate :: "'schema \<Rightarrow> 'doc \<Rightarrow> 'rule list \<Rightarrow> error + GraphQLError list"

text \<open>
  \<open>params\<close> after the three awaits: the schema overwritten, the context merged in with
  \<open>Object.assign\<close>, the formatter set.
\<close>

definition prepared_params ::
  "('schema, 'doc) params \<Rightarrow> (string \<rightharpoonup> jsval) \<Rightarrow> 'schema \<Rightarrow> request \<Rightarrow> response
     \<Rightarrow> ('schema, 'doc) params" where
  "prepared_params p ctx newSchema req dummyRes =
     p\<lparr>params_schema := newSchema,
       params_context := params_context p ++ ctx,
       params_formatResponse := Some (req, dummyRes)\<rparr>"

text \<open>
  \<open>options.pluginHook ? options.pluginHook('postgraphile:ws:onOperation', params, ...) :
  params\<close>: the value of \<open>hookedParams\<close> and the \<open>params\<close> object afterwards.
\<close>

definition hookedParams ::
  "('schema, 'doc, 'rule) collaborators \<Rightarrow> ('schema, 'doc) params
     \<Rightarrow> error + ('schema, 'doc) params \<times> ('schema, 'doc) params" where
  "hookedParams c p =
     (case options_pluginHook c of
        None \<Rightarrow> Inr (p, p)
      | Some h \<Rightarrow> on_ws_onOperation h p)"

text \<open>The query of \<open>finalParams\<close>: parsed when it is a string.\<close>

definition final_query ::
  "('schema, 'doc, 'rule) collaborators \<Rightarrow> ('schema, 'doc) params \<Rightarrow> error + 'doc" where
  "final_query c hooked =
     (case params_query hooked of Inl text \<Rightarrow> parse c text | Inr doc \<Rightarrow> Inr doc)"

text \<open>
  \<open>onOperation\<close> awaits \<open>getContext\<close>, \<open>getGraphQLSchema\<close> and \<open>reqResFromSocket\<close>, in
  this order; each enters as the value it settles with, and a rejection ends the
  handler with that error. What follows the last \<open>await\<close> is one atomic piece. After
  the operation hook has run, the variables and the operation name are read from the
  \<open>params\<close> object as that hook left it, and the query from what it returned; the
  schema is read from the \<open>params\<close> object after the rules hook has run.
\<close>

definition onOperation ::
  "('schema, 'doc, 'rule) collaborators \<Rightarrow> error + (string \<rightharpoonup> jsval) \<Rightarrow> error + 'schema
     \<Rightarrow> error + request \<times> response \<Rightarrow> ('schema, 'doc) params
     \<Rightarrow> error + ('schema, 'doc) params" where
  "onOperation c contextResult schemaResult reqResResult p =
     (case contextResult of
        Inl e \<Rightarrow> Inl e
      | Inr ctx \<Rightarrow>
     (case schemaResult of
        Inl e \<Rightarrow> Inl e
      | Inr newSchema \<Rightarrow>
     (case reqResResult of
        Inl e \<Rightarrow> Inl e
      | Inr (req, dummyRes) \<Rightarrow>
     (case hookedParams c (prepared_params p ctx newSchema req dummyRes) of
        Inl e \<Rightarrow> Inl e
      | Inr (hooked, p2) \<Rightarrow>
     (case final_query c hooked of
        Inl e \<Rightarrow> Inl e
      | Inr doc \<Rightarrow>
          let finalParams = hooked\<lparr>params_query := Inr doc\<rparr>
          in case on_validationRules (pluginHook c) [] req dummyRes
                    (params_variables p2) (params_operationName p2) p2 of
               Inl e \<Rightarrow> Inl e
             | Inr (moreValidationRules, p3) \<Rightarrow>
                 if moreValidationRules \<noteq> [] then
                   (case validate c (params_schema p3) doc moreValidationRules of
                      Inl e \<Rightarrow> Inl e
                    | Inr validationErrors \<Rightarrow>
                        if validationErrors \<noteq> [] then
                          Inl (Error (''Query validation failed: \<newline>''
                                       @ join ''\<newline>'' (map message validationErrors))
                                 (Some validationErrors))
                        else Inr finalParams)
                 else Inr finalParams)))))"

text \<open>
  For the examples: rules named by strings; a hook that sets the operation name on the
  \<open>params\<close> object it is handed and returns that object, and that gives two rules for
  an operation of this name and none otherwise; a \<open>validate\<close> in which every rule
  rejects the query with a message of its own.
\<close>

definition naming_hook :: "(nat, string, string) hook" where
  "naming_hook =
     \<lparr>on_ws_onOperation =
        (\<lambda>p. Inr (p\<lparr>params_operationName := Some ''Tick''\<rparr>,
                  p\<lparr>params_operationName := Some ''Tick''\<rparr>)),
      on_validationRules =
        (\<lambda>rules req dummyRes vars opName p.
           Inr (if opName = Some ''Tick'' then rules @ [''depth'', ''cost''] else rules, p))\<rparr>"

definition rejecting_collaborators :: "(nat, string, string) collaborators" where
  "rejecting_collaborators =
     \<lparr>options_pluginHook = Some naming_hook,
      pluginHook = naming_hook,
      parse = (\<lambda>text. Inr text),
      validate = (\<lambda>s doc rules. Inr (map (\<lambda>r. \<lparr>message = r @ '' limit exceeded''\<rparr>) rules))\<rparr>"

definition subscription_params :: "(nat, string) params" where
  "subscription_params =
     \<lparr>params_schema = 0, params_query = Inl ''subscription { tick }'',
      params_variables = Map.empty, params_operationName = None,
      params_context = Map.empty, params_formatResponse = None\<rparr>"

subsection \<open>Example values\<close>

text \<open>
  For the examples: a fresh socket and a socket after \<open>onConnect\<close> gave it the id 1,
  requests without headers, and a request with an \<open>authorization\<close> header.
\<close>

definition request_to :: "string \<Rightarrow> request" where
  "request_to path = \<lparr>url = path, headers = Map.empty, res = False, connectionParams = None,
     normalizedConnectionParams = None\<rparr>"

definition pathname_is_url :: "request \<Rightarrow> parsed_url option" where
  "pathname_is_url req = Some \<lparr>pathname = Some (url req)\<rparr>"

definition default_options :: options where
  "default_options = \<lparr>graphqlRoute = None, websocketMiddlewares = None, middlewares = None\<rparr>"

definition options_with_route :: "string \<Rightarrow> options" where
  "options_with_route r = \<lparr>graphqlRoute = Some r, websocketMiddlewares = None, middlewares = None\<rparr>"

definition fresh_server :: "'schema server" where
  "fresh_server = \<lparr>postgraphileSubscriptionsEnabled = False, upgradeListeners = [],
     subscriptionServers = []\<rparr>"

definition ws0 :: socket where
  "ws0 = \<lparr>postgraphileId = None, postgraphileReq = None, postgraphileRes = None,
           postgraphileHeaders = None\<rparr>"

definition request_with_authorization :: "string \<Rightarrow> request" where
  "request_with_authorization v = (request_to ''/graphql'')\<lparr>headers := [''authorization'' \<mapsto> v]\<rparr>"

definition ws1 :: socket where
  "ws1 = \<lparr>postgraphileId = Some 1, postgraphileReq = None, postgraphileRes = None,
           postgraphileHeaders = None\<rparr>"

subsection \<open>The subscription server's \<open>execute\<close>\<close>

definition execute :: "'a \<Rightarrow> error + 'b" where
  "execute args = Inl (Error ''Only subscriptions are allowed over websocket transport'' None)"

section \<open>Theorems\<close>

subsection \<open>Context keys\<close>

lemma digit_char_not_bar: "digit_char d \<noteq> CHR ''|''"
  by (simp add: digit_char_def) 

lemma digit_char_inj: "a < 10 \<Longrightarrow> b < 10 \<Longrightarrow> digit_char a = digit_char b \<Longrightarrow> a = b"
  by (simp add: digit_char_def split: if_splits; arith)

lemma string_of_nat_no_bar: "CHR ''|'' \<notin> set (string_of_nat n)"
proof (induction n rule: string_of_nat.induct)
  case (1 n)
  then show ?case
    by (subst string_of_nat.simps) (auto simp: digit_char_not_bar [symmetric])
qed

lemma string_of_nat_nonempty: "string_of_nat n \<noteq> []"
  by (subst string_of_nat.simps) simp

lemma string_of_nat_inj: "string_of_nat a = string_of_nat b \<Longrightarrow> a = b"
proof (induction a arbitrary: b rule: string_of_nat.induct)
  case (1 a)
  show ?case
  proof (cases "a < 10")
    case True
    note a10 = this
    show ?thesis
    proof (cases "b < 10")
      case True
      with a10 "1.prems" show ?thesis
        by (simp add: string_of_nat.simps [of a] string_of_nat.simps [of b] digit_char_inj)
    next
      case False
      with a10 "1.prems" string_of_nat_nonempty [of "b div 10"] show ?thesis
        by (simp add: string_of_nat.simps [of a] string_of_nat.simps [of b])
    qed
  next
    case False
    note a10 = this
    show ?thesis
    proof (cases "b < 10")
      case True
      with a10 "1.prems" string_of_nat_nonempty [of "a div 10"] show ?thesis
        by (simp add: string_of_nat.simps [of a] string_of_nat.simps [of b])
    next
      case False
      with a10 "1.prems" have eq: "string_of_nat (a div 10) = string_of_nat (b div 10)"
        and d: "digit_char (a mod 10) = digit_char (b mod 10)"
        by (simp_all add: string_of_nat.simps [of a] string_of_nat.simps [of b])
      from "1.IH" [OF a10 eq] have "a div 10 = b div 10" .
      moreover from d have "a mod 10 = b mod 10"
        by (rule digit_char_inj [rotated 2]) simp_all
      ultimately show ?thesis
        by (metis div_mult_mod_eq)
    qed
  qed
qed

lemma split_at_bar:
  "CHR ''|'' \<notin> set a \<Longrightarrow> CHR ''|'' \<notin> set b \<Longrightarrow> a @ CHR ''|'' # x = b @ CHR ''|'' # y
     \<Longrightarrow> a = b \<and> x = y"
proof (induction a arbitrary: b)
  case Nil
  then show ?case by (cases b) auto
next
  case (Cons c a)
  then show ?case by (cases b) auto
qed

lemma contextKey_inj:
  "postgraphileId ws = Some i \<Longrightarrow> postgraphileId ws' = Some j
     \<Longrightarrow> contextKey ws opId = contextKey ws' opId' \<Longrightarrow> i = j \<and> opId = opId'"
  using split_at_bar [OF string_of_nat_no_bar string_of_nat_no_bar, of i opId j opId']
  by (auto simp: contextKey_def dest: string_of_nat_inj)

subsection \<open>The registry invariant\<close>

lemma inv_empty: "registry_inv empty_registry"
  by (simp add: registry_inv_def registered_live_def one_slot_per_handle_def
      unregistered_resolved_once_def empty_registry_def)

lemma length_resolve [simp]: "length (resolve h ps) = length ps"
  by (simp add: resolve_def)

lemma nth_resolve:
  "i < length ps \<Longrightarrow>
     resolveCalls (resolve h ps ! i) = (if i = h then Suc (resolveCalls (ps ! i)) else resolveCalls (ps ! i))"
  by (simp add: resolve_def nth_list_update)

lemma release_Promise:
  "keepalivePromisesByContextKey r (contextKey ws opId) = Promise h \<Longrightarrow>
   releaseContextForSocketAndOpId ws opId r =
     r\<lparr>promises := resolve h (promises r),
       keepalivePromisesByContextKey := (keepalivePromisesByContextKey r)(contextKey ws opId := Null)\<rparr>"
  by (simp add: releaseContextForSocketAndOpId_def)

lemma release_not_Promise:
  "\<forall>h. keepalivePromisesByContextKey r (contextKey ws opId) \<noteq> Promise h \<Longrightarrow>
   releaseContextForSocketAndOpId ws opId r = r"
  by (cases "keepalivePromisesByContextKey r (contextKey ws opId)")
     (simp_all add: releaseContextForSocketAndOpId_def)

lemma release_key_not_promise:
  "keepalivePromisesByContextKey (releaseContextForSocketAndOpId ws opId r) (contextKey ws opId)
     \<noteq> Promise h"
  by (cases "keepalivePromisesByContextKey r (contextKey ws opId)")
     (simp_all add: releaseContextForSocketAndOpId_def)

lemma inv_release:
  assumes "registry_inv r"
  shows "registry_inv (releaseContextForSocketAndOpId ws opId r)"
proof (cases "\<exists>h. keepalivePromisesByContextKey r (contextKey ws opId) = Promise h")
  case False
  then show ?thesis using assms by (simp add: release_not_Promise)
next
  case True
  then obtain h where h: "keepalivePromisesByContextKey r (contextKey ws opId) = Promise h" ..
  from assms have a: "registered_live r" and b: "one_slot_per_handle r"
    and c: "unregistered_resolved_once r"
    by (simp_all add: registry_inv_def)
  have "registered_live (releaseContextForSocketAndOpId ws opId r)"
    using a b h unfolding release_Promise [OF h] registered_live_def one_slot_per_handle_def
    by (auto simp: nth_resolve)
  moreover have "one_slot_per_handle (releaseContextForSocketAndOpId ws opId r)"
    using b unfolding release_Promise [OF h] one_slot_per_handle_def
    by (auto split: if_splits)
  moreover have "unregistered_resolved_once (releaseContextForSocketAndOpId ws opId r)"
    unfolding release_Promise [OF h] unregistered_resolved_once_def
  proof (intro allI impI)
    fix h'
    let ?r' = "r\<lparr>promises := resolve h (promises r),
       keepalivePromisesByContextKey := (keepalivePromisesByContextKey r)(contextKey ws opId := Null)\<rparr>"
    assume len: "h' < length (promises ?r')"
      and free: "\<forall>k. keepalivePromisesByContextKey ?r' k \<noteq> Promise h'"
    show "resolveCalls (promises ?r' ! h') = 1"
    proof (cases "h' = h")
      case True
      with a h len show ?thesis by (simp add: registered_live_def nth_resolve)
    next
      case False
      have "\<forall>k. keepalivePromisesByContextKey r k \<noteq> Promise h'"
      proof
        fix k
        show "keepalivePromisesByContextKey r k \<noteq> Promise h'"
          using free [rule_format, of k] h False by (cases "k = contextKey ws opId") auto
      qed
      with c len False show ?thesis by (simp add: unregistered_resolved_once_def nth_resolve)
    qed
  qed
  ultimately show ?thesis by (simp add: registry_inv_def)
qed


lemma add_eq:
  "addContextForSocketAndOpId ctx ws opId r =
     (length (promises (releaseContextForSocketAndOpId ws opId r)),
      (releaseContextForSocketAndOpId ws opId r)
        \<lparr>promises := promises (releaseContextForSocketAndOpId ws opId r)
                      @ [\<lparr>deferred_context = ctx, resolveCalls = 0\<rparr>],
         keepalivePromisesByContextKey :=
           (keepalivePromisesByContextKey (releaseContextForSocketAndOpId ws opId r))
             (contextKey ws opId := Promise (length (promises (releaseContextForSocketAndOpId ws opId r))))\<rparr>)"
  by (simp add: addContextForSocketAndOpId_def Let_def)

lemma inv_store:
  assumes inv: "registry_inv r1" and free: "\<forall>h. keepalivePromisesByContextKey r1 key \<noteq> Promise h"
  shows "registry_inv (r1\<lparr>promises := promises r1 @ [d\<lparr>resolveCalls := 0\<rparr>],
            keepalivePromisesByContextKey :=
              (keepalivePromisesByContextKey r1)(key := Promise (length (promises r1)))\<rparr>)"
    (is "registry_inv ?r'")
proof -
  from inv have a: "registered_live r1" and b: "one_slot_per_handle r1"
    and c: "unregistered_resolved_once r1"
    by (simp_all add: registry_inv_def)
  have a': "registered_live ?r'"
    using a unfolding registered_live_def
    by (auto simp: nth_append less_Suc_eq)
  have b': "one_slot_per_handle ?r'"
    using a b unfolding one_slot_per_handle_def registered_live_def
    by (auto split: if_splits)
  have c': "unregistered_resolved_once ?r'"
    unfolding unregistered_resolved_once_def
  proof (intro allI impI)
    fix h
    assume len: "h < length (promises ?r')"
      and nk: "\<forall>k. keepalivePromisesByContextKey ?r' k \<noteq> Promise h"
    from nk [rule_format, of key] have ne: "h \<noteq> length (promises r1)" by auto
    with len have lt: "h < length (promises r1)" by simp
    have "\<forall>k. keepalivePromisesByContextKey r1 k \<noteq> Promise h"
    proof
      fix k
      show "keepalivePromisesByContextKey r1 k \<noteq> Promise h"
        using nk [rule_format, of k] free by (cases "k = key") auto
    qed
    with c lt show "resolveCalls (promises ?r' ! h) = 1"
      by (simp add: unregistered_resolved_once_def nth_append)
  qed
  from a' b' c' show ?thesis by (simp add: registry_inv_def)
qed

lemma inv_add:
  assumes "registry_inv r"
  shows "registry_inv (snd (addContextForSocketAndOpId ctx ws opId r))"
  using inv_store [OF inv_release [OF assms, of ws opId], of "contextKey ws opId"
      "\<lparr>deferred_context = ctx, resolveCalls = 0\<rparr>"]
    release_key_not_promise [of ws opId r]
  by (simp add: add_eq)

lemma inv_step: "registry_inv r \<Longrightarrow> registry_inv (registry_step r op)"
  by (cases op) (simp_all add: inv_add inv_release)

lemma inv_foldl: "registry_inv r \<Longrightarrow> registry_inv (foldl registry_step r ops)"
  by (induction ops arbitrary: r) (simp_all add: inv_step)

lemma inv_run: "registry_inv (run_registry ops)"
  by (simp add: run_registry_def inv_foldl inv_empty)


lemma inv_resolved_at_most_once:
  assumes "registry_inv r" and "h < length (promises r)"
  shows "resolveCalls (promises r ! h) \<le> 1"
proof (cases "\<exists>k. keepalivePromisesByContextKey r k = Promise h")
  case True
  with assms show ?thesis by (auto simp: registry_inv_def registered_live_def)
next
  case False
  with assms show ?thesis by (auto simp: registry_inv_def unregistered_resolved_once_def)
qed

lemma inv_pending_iff_registered:
  assumes "registry_inv r" and "h < length (promises r)"
  shows "(resolveCalls (promises r ! h) = 0) = (\<exists>k. keepalivePromisesByContextKey r k = Promise h)"
proof (cases "\<exists>k. keepalivePromisesByContextKey r k = Promise h")
  case True
  with assms show ?thesis by (auto simp: registry_inv_def registered_live_def)
next
  case False
  with assms have "resolveCalls (promises r ! h) = 1"
    by (auto simp: registry_inv_def unregistered_resolved_once_def)
  with False show ?thesis by simp
qed

lemma length_promises_release:
  "length (promises (releaseContextForSocketAndOpId ws opId r)) = length (promises r)"
  by (cases "keepalivePromisesByContextKey r (contextKey ws opId)")
     (simp_all add: releaseContextForSocketAndOpId_def)

lemma run_registry_snoc:
  "run_registry (ops @ [op]) = registry_step (run_registry ops) op"
  by (simp add: run_registry_def)

text \<open>
  C1. In every state \<open>r\<close> the registry can reach: no promise has had \<open>resolve\<close> called
  more than once; a promise is pending exactly when some slot holds it (none is leaked,
  none that a slot holds is resolved); and no promise sits in two slots, so a key has at
  most one live handle. Acquiring a handle in \<open>r\<close> gives such a state \<open>r'\<close> again. When
  the key's slot holds a live promise, that promise is resolved once by the release that
  comes first, which clears the slot, and only then is the new promise, a different
  object, stored under the key. No other promise is touched, and the keys of other
  (socket id, operation id) pairs keep their slots.
\<close>

theorem acquire_releases_old_handle:
  assumes r: "r = run_registry ops"
    and add: "addContextForSocketAndOpId ctx ws opId r = (p, r')"
  shows "(\<forall>h. h < length (promises r) \<longrightarrow> resolveCalls (promises r ! h) \<le> 1)
    \<and> (\<forall>h. h < length (promises r) \<longrightarrow>
          (resolveCalls (promises r ! h) = 0) = (\<exists>k. keepalivePromisesByContextKey r k = Promise h))
    \<and> (\<forall>k k' h. keepalivePromisesByContextKey r k = Promise h
          \<longrightarrow> keepalivePromisesByContextKey r k' = Promise h \<longrightarrow> k = k')
    \<and> r' = run_registry (ops @ [Add ctx ws opId])
    \<and> (\<forall>h. keepalivePromisesByContextKey r (contextKey ws opId) = Promise h \<longrightarrow>
          h < length (promises r) \<and> h \<noteq> p
          \<and> resolveCalls (promises r ! h) = 0
          \<and> resolveCalls (promises (releaseContextForSocketAndOpId ws opId r) ! h) = 1
          \<and> keepalivePromisesByContextKey (releaseContextForSocketAndOpId ws opId r)
                (contextKey ws opId) = Null
          \<and> resolveCalls (promises r' ! h) = 1)
    \<and> keepalivePromisesByContextKey r' (contextKey ws opId) = Promise p
    \<and> p = length (promises r) \<and> length (promises r') = Suc p
    \<and> promises r' ! p = \<lparr>deferred_context = ctx, resolveCalls = 0\<rparr>
    \<and> (\<forall>h. h < length (promises r)
          \<longrightarrow> keepalivePromisesByContextKey r (contextKey ws opId) \<noteq> Promise h
          \<longrightarrow> promises r' ! h = promises r ! h)
    \<and> (\<forall>ws' opId' i j. postgraphileId ws = Some i \<longrightarrow> postgraphileId ws' = Some j
          \<longrightarrow> (i, opId) \<noteq> (j, opId')
          \<longrightarrow> keepalivePromisesByContextKey r' (contextKey ws' opId')
                = keepalivePromisesByContextKey r (contextKey ws' opId'))"
proof -
  let ?key = "contextKey ws opId"
  let ?r1 = "releaseContextForSocketAndOpId ws opId r"
  have inv: "registry_inv r" by (simp add: r inv_run)
  have r': "r' = snd (addContextForSocketAndOpId ctx ws opId r)"
    and p: "p = fst (addContextForSocketAndOpId ctx ws opId r)" by (simp_all add: add)
  have reach: "r' = run_registry (ops @ [Add ctx ws opId])"
    by (simp add: run_registry_snoc r' r)
  have len1: "length (promises ?r1) = length (promises r)"
    by (rule length_promises_release)
  have pl: "p = length (promises r)" by (simp add: p add_eq len1)
  have len': "length (promises r') = Suc p" by (simp add: r' add_eq len1 pl)
  have slot: "keepalivePromisesByContextKey r' ?key = Promise p" by (simp add: r' p add_eq)
  have new: "promises r' ! p = \<lparr>deferred_context = ctx, resolveCalls = 0\<rparr>"
    by (simp add: r' pl add_eq len1 [symmetric])
  have c0: "\<forall>h. h < length (promises r) \<longrightarrow> resolveCalls (promises r ! h) \<le> 1"
    using inv_resolved_at_most_once [OF inv] by blast
  have c1: "\<forall>h. h < length (promises r) \<longrightarrow>
          (resolveCalls (promises r ! h) = 0) = (\<exists>k. keepalivePromisesByContextKey r k = Promise h)"
    using inv_pending_iff_registered [OF inv] by blast
  have c2: "\<forall>k k' h. keepalivePromisesByContextKey r k = Promise h
          \<longrightarrow> keepalivePromisesByContextKey r k' = Promise h \<longrightarrow> k = k'"
    using inv unfolding registry_inv_def one_slot_per_handle_def by blast
  have c3: "\<forall>h. keepalivePromisesByContextKey r ?key = Promise h \<longrightarrow>
          h < length (promises r) \<and> h \<noteq> p
          \<and> resolveCalls (promises r ! h) = 0
          \<and> resolveCalls (promises ?r1 ! h) = 1
          \<and> keepalivePromisesByContextKey ?r1 ?key = Null
          \<and> resolveCalls (promises r' ! h) = 1"
  proof (intro allI impI)
    fix h assume h: "keepalivePromisesByContextKey r ?key = Promise h"
    from inv h have hl: "h < length (promises r)" and h0: "resolveCalls (promises r ! h) = 0"
      by (auto simp: registry_inv_def registered_live_def)
    have h1: "resolveCalls (promises ?r1 ! h) = 1"
      using hl h0 by (simp add: release_Promise [OF h] nth_resolve)
    have "resolveCalls (promises r' ! h) = 1"
      using hl h1 by (simp add: r' add_eq nth_append len1)
    moreover have "keepalivePromisesByContextKey ?r1 ?key = Null"
      by (simp add: release_Promise [OF h])
    ultimately show "h < length (promises r) \<and> h \<noteq> p
          \<and> resolveCalls (promises r ! h) = 0
          \<and> resolveCalls (promises ?r1 ! h) = 1
          \<and> keepalivePromisesByContextKey ?r1 ?key = Null
          \<and> resolveCalls (promises r' ! h) = 1"
      using hl h0 h1 pl by simp
  qed
  have c5: "\<forall>h. h < length (promises r)
          \<longrightarrow> keepalivePromisesByContextKey r ?key \<noteq> Promise h
          \<longrightarrow> promises r' ! h = promises r ! h"
  proof (intro allI impI)
    fix h assume hl: "h < length (promises r)"
      and nh: "keepalivePromisesByContextKey r ?key \<noteq> Promise h"
    have "promises ?r1 ! h = promises r ! h"
    proof (cases "keepalivePromisesByContextKey r ?key")
      case (Promise h')
      with nh have "h' \<noteq> h" by simp
      with hl show ?thesis by (simp add: release_Promise [OF Promise] resolve_def)
    qed (simp_all add: releaseContextForSocketAndOpId_def)
    with hl show "promises r' ! h = promises r ! h"
      by (simp add: r' add_eq nth_append len1)
  qed
  have c4: "\<forall>ws' opId' i j. postgraphileId ws = Some i \<longrightarrow> postgraphileId ws' = Some j
          \<longrightarrow> (i, opId) \<noteq> (j, opId')
          \<longrightarrow> keepalivePromisesByContextKey r' (contextKey ws' opId')
                = keepalivePromisesByContextKey r (contextKey ws' opId')"
  proof (intro allI impI)
    fix ws' :: socket and opId' i j
    assume i: "postgraphileId ws = Some i" and j: "postgraphileId ws' = Some j"
      and ne: "(i, opId) \<noteq> (j, opId')"
    from contextKey_inj [OF i j, of opId opId'] ne have kne: "contextKey ws' opId' \<noteq> ?key"
      by auto
    have "keepalivePromisesByContextKey ?r1 (contextKey ws' opId')
            = keepalivePromisesByContextKey r (contextKey ws' opId')"
      using kne by (cases "keepalivePromisesByContextKey r ?key")
        (simp_all add: releaseContextForSocketAndOpId_def)
    then show "keepalivePromisesByContextKey r' (contextKey ws' opId')
                = keepalivePromisesByContextKey r (contextKey ws' opId')"
      using kne by (simp add: r' add_eq)
  qed
  from c0 c1 c2 reach c3 slot pl len' new c5 c4 show ?thesis by blast
qed

theorem acquire_releases_old_handle_witness:
  "resolveCalls (promises (snd (addContextForSocketAndOpId ''b'' ws1 ''7''
       (run_registry [Add ''a'' ws1 ''7'']))) ! 0) = 1
   \<and> keepalivePromisesByContextKey (snd (addContextForSocketAndOpId ''b'' ws1 ''7''
       (run_registry [Add ''a'' ws1 ''7'']))) ''1|7'' = Promise 1"
proof -
  have k: "contextKey ws1 ''7'' = ''1|7''"
    by (simp add: contextKey_def ws1_def string_of_nat.simps digit_char_def)
  have r: "run_registry [Add ''a'' ws1 ''7''] =
      \<lparr>promises = [\<lparr>deferred_context = ''a'', resolveCalls = 0\<rparr>],
       keepalivePromisesByContextKey = (\<lambda>k. Absent)(''1|7'' := Promise 0)\<rparr>"
    by (simp add: run_registry_def add_eq releaseContextForSocketAndOpId_def k empty_registry_def)
  have old: "keepalivePromisesByContextKey (run_registry [Add ''a'' ws1 ''7'']) (contextKey ws1 ''7'')
      = Promise 0"
    by (simp add: r k)
  let ?r = "run_registry [Add ''a'' ws1 ''7'']"
  let ?res = "addContextForSocketAndOpId ''b'' ws1 ''7'' ?r"
  note th = acquire_releases_old_handle [OF refl surjective_pairing,
      where ops = "[Add ''a'' ws1 ''7'']" and ctx = "''b''" and ws = ws1 and opId = "''7''"]
  from th old have "resolveCalls (promises (snd ?res) ! 0) = 1" by blast
  moreover from th have "keepalivePromisesByContextKey (snd ?res) (contextKey ws1 ''7'')
      = Promise (fst ?res)" by blast
  moreover from th have "fst ?res = length (promises ?r)" by blast
  moreover have "length (promises ?r) = 1" by (simp add: r)
  ultimately show ?thesis by (simp add: k)
qed


subsection \<open>Releasing a context\<close>

text \<open>
  C4. Releasing a key twice in a row leaves the registry as releasing it once does;
  releasing a key that was never written, or whose slot is already cleared, returns the
  registry unchanged. The function has no error result: it cannot raise.
\<close>

theorem release_idempotent:
  "releaseContextForSocketAndOpId ws opId (releaseContextForSocketAndOpId ws opId r)
     = releaseContextForSocketAndOpId ws opId r
   \<and> (keepalivePromisesByContextKey r (contextKey ws opId) \<in> {Absent, Null}
        \<longrightarrow> releaseContextForSocketAndOpId ws opId r = r)"
proof
  let ?r1 = "releaseContextForSocketAndOpId ws opId r"
  show "releaseContextForSocketAndOpId ws opId ?r1 = ?r1"
  proof (cases "keepalivePromisesByContextKey ?r1 (contextKey ws opId)")
    case (Promise h)
    then show ?thesis using release_key_not_promise by blast
  qed (simp_all add: releaseContextForSocketAndOpId_def [of ws opId ?r1])
next
  show "keepalivePromisesByContextKey r (contextKey ws opId) \<in> {Absent, Null}
        \<longrightarrow> releaseContextForSocketAndOpId ws opId r = r"
    by (auto simp: releaseContextForSocketAndOpId_def)
qed

theorem release_idempotent_witness:
  "releaseContextForSocketAndOpId ws1 ''7'' (empty_registry :: string registry) = empty_registry
   \<and> releaseContextForSocketAndOpId ws1 ''7''
         (releaseContextForSocketAndOpId ws1 ''7'' (run_registry [Add ''a'' ws1 ''7'']))
       = releaseContextForSocketAndOpId ws1 ''7'' (run_registry [Add ''a'' ws1 ''7''])"
  using release_idempotent [of ws1 "''7''" "empty_registry :: string registry"]
    release_idempotent [of ws1 "''7''" "run_registry [Add ''a'' ws1 ''7'']"]
  by (simp add: empty_registry_def)

subsection \<open>Execute over the websocket transport\<close>

text \<open>
  C9. The \<open>execute\<close> handed to the subscription server throws, whatever it is called
  with: the error says that only subscriptions are allowed over the websocket transport.
\<close>

theorem execute_always_throws:
  "execute args = Inl (Error ''Only subscriptions are allowed over websocket transport'' None)"
  by (simp add: execute_def)

subsection \<open>The pseudo-response's \<open>writeHead\<close>\<close>

lemma headers_object_truthy: "truthy_opt (Some (JObj kvs))"
  by (simp add: truthy_opt_def)

lemma writeHead_ignores_statusMessage:
  "writeHead statusCode statusMessage hdrs = writeHead statusCode statusMessage' hdrs"
  by (simp add: writeHead_def)

text \<open>
  What the override does catch: a status code above 200, and otherwise a truthy value,
  as every headers object is, in its third parameter.
\<close>

lemma writeHead_status_or_third_argument:
  "(200 < n \<longrightarrow>
      writeHead (Some n) statusMessage hdrs =
        [ConsoleError (''Something used 'writeHead' to write a '' @ [CHR 0x27]
           @ string_of_int n @ [CHR 0x27]
           @ '' error for websockets - check the middleware you're passing!''),
         SocketClose])
   \<and> (\<not> (\<exists>m. statusCode = Some m \<and> 200 < m) \<and> truthy_opt hdrs \<longrightarrow>
      writeHead statusCode statusMessage hdrs =
        [ConsoleError ''Passing headers to 'writeHead' is not supported with websockets currently - check the middleware you're passing'',
         SocketClose])"
  by (cases statusCode) (auto simp: writeHead_def status_above_200_def status_text_def)

text \<open>
  C6. The claim: on every call of the overridden \<open>writeHead\<close>, a status above 200 is
  logged and closes the socket, and otherwise response headers that are passed are
  logged and close the socket. The override looks for headers in its third parameter
  only. \<open>writeHead(statusCode, headers)\<close>, the two-argument form of the method it
  replaces, puts the headers in the second parameter, which the body never reads: with
  the status 200 and a \<open>Set-Cookie\<close> header passed this way nothing is logged and the
  socket is not closed, though the override's own message says that passing headers to
  \<open>writeHead\<close> is not supported.
\<close>

theorem writeHead_misses_two_argument_headers:
  "writeHead (Some 200) (Some (JObj [(''Set-Cookie'', JStr ''a=b'')])) None = []"
  by (simp add: writeHead_def status_above_200_def truthy_opt_def)

text \<open>
  C10. A call of the overridden \<open>writeHead\<close> with a status of 200 or lower, or with a
  falsy status (0 or none), and without (truthy) headers does nothing: no log entry, no
  close of the socket, nothing written.
\<close>

theorem writeHead_success_is_noop:
  "(statusCode = None \<or> (\<exists>n. statusCode = Some n \<and> n \<le> 200)) \<and> \<not> truthy_opt hdrs
     \<longrightarrow> writeHead statusCode statusMessage hdrs = []"
  by (auto simp: writeHead_def status_above_200_def split: option.splits)

theorem writeHead_success_is_noop_witness:
  "writeHead (Some 200) (Some (JStr ''OK'')) None = []
   \<and> writeHead (Some 0) None None = [] \<and> writeHead None None None = []"
  using writeHead_success_is_noop [of "Some 200" None "Some (JStr ''OK'')"]
    writeHead_success_is_noop [of "Some 0" None None]
    writeHead_success_is_noop [of None None None]
  by (simp add: truthy_opt_def)

subsection \<open>The upgrade listener\<close>

lemma graphqlRoute_of_nonempty: "graphqlRoute_of opts \<noteq> []"
  by (simp add: graphqlRoute_of_def split: option.splits)

text \<open>
  C7. The listener that the enhancement attaches is the one for the route
  \<open>options.graphqlRoute || '/graphql'\<close>: the configured route when there is one, and
  \<open>/graphql\<close> when none (or the empty string) is configured. On an upgrade event, when
  the request's path equals that route, the listener calls the handshake with the
  request, the raw socket and the head, and the callback it passes emits \<open>connection\<close>
  with the new websocket and that same request; when the path differs, or the URL
  cannot be parsed, the listener does nothing.
\<close>

theorem upgrade_only_on_graphql_route:
  "(parseUrl req = Some u \<and> pathname u = Some (graphqlRoute_of opts) \<longrightarrow>
      on_upgrade (graphqlRoute_of opts) parseUrl req rawSocket head =
        [HandleUpgrade req rawSocket head (\<lambda>ws. [Emit ''connection'' ws req])])
   \<and> (parseUrl req = None \<or> (parseUrl req = Some u \<and> pathname u \<noteq> Some (graphqlRoute_of opts)) \<longrightarrow>
      on_upgrade (graphqlRoute_of opts) parseUrl req rawSocket head = [])
   \<and> (graphqlRoute opts = None \<or> graphqlRoute opts = Some [] \<longrightarrow> graphqlRoute_of opts = ''/graphql'')
   \<and> (graphqlRoute opts = Some r \<and> r \<noteq> [] \<longrightarrow> graphqlRoute_of opts = r)
   \<and> (\<not> postgraphileSubscriptionsEnabled s \<longrightarrow>
        upgradeListeners (snd (enhanceHttpServerWithSubscriptions s opts (Inr schema)))
          = upgradeListeners s @ [graphqlRoute_of opts])"
proof (intro conjI impI)
  assume "parseUrl req = Some u \<and> pathname u = Some (graphqlRoute_of opts)"
  then show "on_upgrade (graphqlRoute_of opts) parseUrl req rawSocket head =
        [HandleUpgrade req rawSocket head (\<lambda>ws. [Emit ''connection'' ws req])]"
    by (simp add: on_upgrade_def)
next
  assume "parseUrl req = None \<or> (parseUrl req = Some u \<and> pathname u \<noteq> Some (graphqlRoute_of opts))"
  then show "on_upgrade (graphqlRoute_of opts) parseUrl req rawSocket head = []"
    using graphqlRoute_of_nonempty [of opts] by (auto simp: on_upgrade_def)
next
  assume "graphqlRoute opts = None \<or> graphqlRoute opts = Some []"
  then show "graphqlRoute_of opts = ''/graphql''"
    by (auto simp: graphqlRoute_of_def)
next
  assume "graphqlRoute opts = Some r \<and> r \<noteq> []"
  then show "graphqlRoute_of opts = r"
    by (simp add: graphqlRoute_of_def)
next
  assume "\<not> postgraphileSubscriptionsEnabled s"
  then show "upgradeListeners (snd (enhanceHttpServerWithSubscriptions s opts (Inr schema)))
          = upgradeListeners s @ [graphqlRoute_of opts]"
    by (simp add: enhanceHttpServerWithSubscriptions_def Let_def)
qed

theorem upgrade_only_on_graphql_route_witness:
  "on_upgrade ''/graphql'' pathname_is_url (request_to ''/graphql'') (0::nat) ''head'' =
     [HandleUpgrade (request_to ''/graphql'') 0 ''head''
        (\<lambda>ws::nat. [Emit ''connection'' ws (request_to ''/graphql'')])]
   \<and> on_upgrade ''/graphql'' pathname_is_url (request_to ''/other'') (0::nat) ''head''
       = ([] :: (nat, string, nat) upgrade_effect list)
   \<and> upgradeListeners (snd (enhanceHttpServerWithSubscriptions fresh_server
        (options_with_route ''/api/graphql'') (Inr (0::nat)))) = [''/api/graphql'']
   \<and> on_upgrade ''/api/graphql'' pathname_is_url (request_to ''/api/graphql'') (0::nat) ''head'' =
     [HandleUpgrade (request_to ''/api/graphql'') 0 ''head''
        (\<lambda>ws::nat. [Emit ''connection'' ws (request_to ''/api/graphql'')])]
   \<and> on_upgrade ''/api/graphql'' pathname_is_url (request_to ''/graphql'') (0::nat) ''head''
       = ([] :: (nat, string, nat) upgrade_effect list)
   \<and> upgradeListeners (snd (enhanceHttpServerWithSubscriptions fresh_server
        default_options (Inr (0::nat)))) = [''/graphql'']"
proof -
  let ?u = "\<lambda>path. \<lparr>pathname = Some path\<rparr>"
  note th = upgrade_only_on_graphql_route [where parseUrl = pathname_is_url
      and rawSocket = "0::nat" and head = "''head''" and s = "fresh_server :: nat server"
      and schema = "0::nat" and r = "''/api/graphql''"]
  have parsed: "\<And>path. pathname_is_url (request_to path) = Some (?u path)"
    by (simp add: pathname_is_url_def request_to_def)
  have fresh: "\<not> postgraphileSubscriptionsEnabled (fresh_server :: nat server)"
    and none: "upgradeListeners (fresh_server :: nat server) = []"
    by (simp_all add: fresh_server_def)
  have "graphqlRoute default_options = None" by (simp add: default_options_def)
  with th [where opts = default_options and req = "request_to ''/graphql''" and u = "?u ''/graphql''"]
  have d: "graphqlRoute_of default_options = ''/graphql''" by blast
  have "graphqlRoute (options_with_route ''/api/graphql'') = Some ''/api/graphql''
      \<and> ''/api/graphql'' \<noteq> []"
    by (simp add: options_with_route_def)
  with th [where opts = "options_with_route ''/api/graphql''" and req = "request_to ''/graphql''"
      and u = "?u ''/graphql''"]
  have c: "graphqlRoute_of (options_with_route ''/api/graphql'') = ''/api/graphql''" by blast
  have "pathname_is_url (request_to ''/graphql'') = Some (?u ''/graphql'')
      \<and> pathname (?u ''/graphql'') = Some (graphqlRoute_of default_options)"
    by (simp add: parsed d)
  with th [where opts = default_options and req = "request_to ''/graphql''" and u = "?u ''/graphql''"]
  have 1: "on_upgrade (graphqlRoute_of default_options) pathname_is_url (request_to ''/graphql'')
      (0::nat) ''head'' =
     [HandleUpgrade (request_to ''/graphql'') 0 ''head''
        (\<lambda>ws::nat. [Emit ''connection'' ws (request_to ''/graphql'')])]"
    by blast
  have "pathname_is_url (request_to ''/other'') = Some (?u ''/other'')
      \<and> pathname (?u ''/other'') \<noteq> Some (graphqlRoute_of default_options)"
    by (simp add: parsed d)
  with th [where opts = default_options and req = "request_to ''/other''" and u = "?u ''/other''"]
  have 2: "on_upgrade (graphqlRoute_of default_options) pathname_is_url (request_to ''/other'')
      (0::nat) ''head'' = ([] :: (nat, string, nat) upgrade_effect list)"
    by blast
  from fresh th [where opts = "options_with_route ''/api/graphql''"
      and req = "request_to ''/graphql''" and u = "?u ''/graphql''"]
  have 3: "upgradeListeners (snd (enhanceHttpServerWithSubscriptions fresh_server
        (options_with_route ''/api/graphql'') (Inr (0::nat))))
      = upgradeListeners (fresh_server :: nat server)
          @ [graphqlRoute_of (options_with_route ''/api/graphql'')]"
    by blast
  have "pathname_is_url (request_to ''/api/graphql'') = Some (?u ''/api/graphql'')
      \<and> pathname (?u ''/api/graphql'') = Some (graphqlRoute_of (options_with_route ''/api/graphql''))"
    by (simp add: parsed c)
  with th [where opts = "options_with_route ''/api/graphql''"
      and req = "request_to ''/api/graphql''" and u = "?u ''/api/graphql''"]
  have 4: "on_upgrade (graphqlRoute_of (options_with_route ''/api/graphql'')) pathname_is_url
      (request_to ''/api/graphql'') (0::nat) ''head'' =
     [HandleUpgrade (request_to ''/api/graphql'') 0 ''head''
        (\<lambda>ws::nat. [Emit ''connection'' ws (request_to ''/api/graphql'')])]"
    by blast
  have "pathname_is_url (request_to ''/graphql'') = Some (?u ''/graphql'')
      \<and> pathname (?u ''/graphql'') \<noteq> Some (graphqlRoute_of (options_with_route ''/api/graphql''))"
    by (simp add: parsed c)
  with th [where opts = "options_with_route ''/api/graphql''"
      and req = "request_to ''/graphql''" and u = "?u ''/graphql''"]
  have 5: "on_upgrade (graphqlRoute_of (options_with_route ''/api/graphql'')) pathname_is_url
      (request_to ''/graphql'') (0::nat) ''head'' = ([] :: (nat, string, nat) upgrade_effect list)"
    by blast
  from fresh th [where opts = default_options and req = "request_to ''/graphql''"
      and u = "?u ''/graphql''"]
  have 6: "upgradeListeners (snd (enhanceHttpServerWithSubscriptions fresh_server
        default_options (Inr (0::nat))))
      = upgradeListeners (fresh_server :: nat server) @ [graphqlRoute_of default_options]"
    by blast
  from 1 2 3 4 5 6 show ?thesis by (simp add: c d none)
qed

subsection \<open>Enhancing the server twice\<close>

text \<open>
  C8. After a call of the enhancement function the server carries the marker, and a
  further call on that server, with whatever options and schema, returns at once and
  leaves the server as it was: no listener and no subscription server is added.
\<close>

theorem enhance_second_call_is_noop:
  "postgraphileSubscriptionsEnabled (snd (enhanceHttpServerWithSubscriptions s opts schemaResult))
   \<and> enhanceHttpServerWithSubscriptions
         (snd (enhanceHttpServerWithSubscriptions s opts schemaResult)) opts' schemaResult'
       = (None, snd (enhanceHttpServerWithSubscriptions s opts schemaResult))"
  by (cases schemaResult) (simp_all add: enhanceHttpServerWithSubscriptions_def Let_def)

subsection \<open>The authorization header on connect\<close>

lemmas onConnect_eval =
  header_after_onConnect_def onConnect_thrown_def onConnect_def lowerCaseKeys_def
  own_entries_def memo_set_def memo_get_def inherits_proto_setter_def empty_memo_def
  ascii_toLowerCase_def lower_char_def header_truthy_def Let_def
  request_with_authorization_def request_to_def ws0_def

text \<open>
  C3, as the claim states it, fails on the tests \<open>!request.headers.authorization\<close> and
  \<open>normalizedConnectionParams['authorization']\<close>, which are truthiness tests, and on
  \<open>String(...)\<close>, which can throw: a request whose \<open>authorization\<close> header is present
  but empty has it replaced by the connection parameter; an \<open>authorization\<close> entry that
  is the empty string is not copied to a request without the header; and an
  \<open>authorization\<close> entry that is an object with an own \<open>toString\<close> entry makes
  \<open>onConnect\<close> throw, the header not set.
\<close>

theorem authorization_backfill_counterexample:
  "headers (request_with_authorization '''') ''authorization'' = Some ''''
   \<and> header_after_onConnect ''authorization'' ascii_toLowerCase
         (Some (JObj [(''Authorization'', JStr ''Bearer X'')])) ws0
         (request_with_authorization '''') 0 = Some ''Bearer X''
   \<and> headers (request_to ''/graphql'') ''authorization'' = None
   \<and> lowerCaseKeys ascii_toLowerCase (Some (JObj [(''authorization'', JStr '''')]))
       = Inr \<lparr>memo_own = [''authorization'' \<mapsto> JStr ''''], memo_proto = ObjectPrototype\<rparr>
   \<and> header_after_onConnect ''authorization'' ascii_toLowerCase
         (Some (JObj [(''authorization'', JStr '''')])) ws0 (request_to ''/graphql'') 0 = None
   \<and> lowerCaseKeys ascii_toLowerCase
         (Some (JObj [(''authorization'', JObj [(''toString'', JNull)])]))
       = Inr \<lparr>memo_own = [''authorization'' \<mapsto> JObj [(''toString'', JNull)]],
              memo_proto = ObjectPrototype\<rparr>
   \<and> header_after_onConnect ''authorization'' ascii_toLowerCase
         (Some (JObj [(''authorization'', JObj [(''toString'', JNull)])])) ws0
         (request_to ''/graphql'') 0 = None
   \<and> onConnect_thrown ascii_toLowerCase
         (Some (JObj [(''authorization'', JObj [(''toString'', JNull)])])) ws0
         (request_to ''/graphql'') 0
       = Some (TypeError ''Cannot convert object to primitive value'')"
  by (simp add: onConnect_eval)

lemma onConnect_other_headers:
  "name \<noteq> ''authorization'' \<Longrightarrow>
     header_after_onConnect name toLowerCase params sock req socketId = headers req name"
  by (auto simp: header_after_onConnect_def onConnect_def Let_def split: option.splits sum.splits)

lemma onConnect_lowerCaseKeys_throws:
  "lowerCaseKeys toLowerCase params = Inl e \<Longrightarrow>
     header_after_onConnect name toLowerCase params sock req socketId = headers req name
     \<and> onConnect_thrown toLowerCase params sock req socketId = Some e"
  by (simp add: header_after_onConnect_def onConnect_thrown_def onConnect_def Let_def)

lemma onConnect_header_kept:
  "headers req ''authorization'' = Some y \<Longrightarrow> y \<noteq> [] \<Longrightarrow>
     header_after_onConnect ''authorization'' toLowerCase params sock req socketId = Some y"
  by (auto simp: header_after_onConnect_def onConnect_def Let_def header_truthy_def
      split: option.splits sum.splits)

lemma onConnect_entry_falsy:
  "lowerCaseKeys toLowerCase params = Inr normalized \<Longrightarrow>
   \<not> truthy_opt (memo_get normalized ''authorization'') \<Longrightarrow>
     header_after_onConnect ''authorization'' toLowerCase params sock req socketId
       = headers req ''authorization''"
  by (auto simp: header_after_onConnect_def onConnect_def Let_def truthy_opt_def
      split: option.splits sum.splits)

lemma onConnect_backfills:
  assumes "lowerCaseKeys toLowerCase params = Inr normalized"
    and "headers req ''authorization'' = None \<or> headers req ''authorization'' = Some []"
    and "memo_get normalized ''authorization'' = Some v" and "truthy v"
  shows "(js_String v = Inr s \<longrightarrow>
            header_after_onConnect ''authorization'' toLowerCase params sock req socketId = Some s
            \<and> onConnect_thrown toLowerCase params sock req socketId = None)
       \<and> (js_String v = Inl e \<longrightarrow>
            header_after_onConnect ''authorization'' toLowerCase params sock req socketId
              = headers req ''authorization''
            \<and> onConnect_thrown toLowerCase params sock req socketId = Some e)"
  using assms
  by (auto simp: header_after_onConnect_def onConnect_thrown_def onConnect_def Let_def
      header_truthy_def)

lemma truthy_cases:
  "truthy v = (v \<noteq> JNull \<and> v \<noteq> JBool False \<and> v \<noteq> JStr [] \<and> (\<forall>t. v \<noteq> JNum True t))"
  by (cases v) auto

text \<open>
  C3, amended. Let the connection have a request. When the connection parameters are
  missing or \<open>null\<close>, \<open>onConnect\<close> throws and the headers stay as they were. Otherwise
  let \<open>a\<close> be \<open>normalizedConnectionParams['authorization']\<close>, an own entry or one
  inherited through a parameter named \<open>__proto__\<close>. When the request's
  \<open>authorization\<close> header is missing or empty and \<open>a\<close> is truthy (not \<open>null\<close>, \<open>false\<close>,
  the empty string or a falsy number), the header becomes \<open>String(a)\<close>, which is \<open>a\<close>
  itself when \<open>a\<close> is a string; when \<open>String(a)\<close> throws, as it does for an object with
  an own \<open>toString\<close> entry, \<open>onConnect\<close> throws and the header stays as it was. A
  non-empty \<open>authorization\<close> header of the request is kept, whatever the connection
  parameters. Without a truthy \<open>a\<close> the header stays as it was. Every other header of
  the request stays as it was.
\<close>

theorem authorization_backfill:
  "(lowerCaseKeys toLowerCase params = Inr normalized
       \<and> (headers req ''authorization'' = None \<or> headers req ''authorization'' = Some [])
       \<and> memo_get normalized ''authorization'' = Some v \<and> truthy v \<and> js_String v = Inr s
      \<longrightarrow> header_after_onConnect ''authorization'' toLowerCase params sock req socketId = Some s
          \<and> onConnect_thrown toLowerCase params sock req socketId = None)
   \<and> (lowerCaseKeys toLowerCase params = Inr normalized
       \<and> (headers req ''authorization'' = None \<or> headers req ''authorization'' = Some [])
       \<and> memo_get normalized ''authorization'' = Some v \<and> truthy v \<and> js_String v = Inl e
      \<longrightarrow> header_after_onConnect ''authorization'' toLowerCase params sock req socketId
            = headers req ''authorization''
          \<and> onConnect_thrown toLowerCase params sock req socketId = Some e)
   \<and> js_String (JStr t) = Inr t
   \<and> js_String (JObj kvs) =
        (if map_of kvs ''toString'' = None then Inr ''[object Object]''
         else Inl (TypeError ''Cannot convert object to primitive value''))
   \<and> truthy v = (v \<noteq> JNull \<and> v \<noteq> JBool False \<and> v \<noteq> JStr [] \<and> (\<forall>text. v \<noteq> JNum True text))
   \<and> (headers req ''authorization'' = Some y \<and> y \<noteq> []
      \<longrightarrow> header_after_onConnect ''authorization'' toLowerCase params sock req socketId = Some y)
   \<and> (lowerCaseKeys toLowerCase params = Inr normalized
       \<and> \<not> truthy_opt (memo_get normalized ''authorization'')
      \<longrightarrow> header_after_onConnect ''authorization'' toLowerCase params sock req socketId
            = headers req ''authorization'')
   \<and> ((params = None \<or> params = Some JNull)
      \<longrightarrow> header_after_onConnect name toLowerCase params sock req socketId = headers req name
          \<and> onConnect_thrown toLowerCase params sock req socketId
              = Some (TypeError ''Cannot convert undefined or null to object''))
   \<and> (name \<noteq> ''authorization''
      \<longrightarrow> header_after_onConnect name toLowerCase params sock req socketId = headers req name)"
proof (intro conjI impI)
  assume "lowerCaseKeys toLowerCase params = Inr normalized
       \<and> (headers req ''authorization'' = None \<or> headers req ''authorization'' = Some [])
       \<and> memo_get normalized ''authorization'' = Some v \<and> truthy v \<and> js_String v = Inr s"
  then show "header_after_onConnect ''authorization'' toLowerCase params sock req socketId = Some s"
    and "onConnect_thrown toLowerCase params sock req socketId = None"
    using onConnect_backfills [of toLowerCase params normalized req v s sock socketId] by blast+
next
  assume "lowerCaseKeys toLowerCase params = Inr normalized
       \<and> (headers req ''authorization'' = None \<or> headers req ''authorization'' = Some [])
       \<and> memo_get normalized ''authorization'' = Some v \<and> truthy v \<and> js_String v = Inl e"
  then show "header_after_onConnect ''authorization'' toLowerCase params sock req socketId
            = headers req ''authorization''"
    and "onConnect_thrown toLowerCase params sock req socketId = Some e"
    using onConnect_backfills [of toLowerCase params normalized req v _ sock socketId e] by blast+
next
  show "js_String (JStr t) = Inr t" by simp
next
  show "js_String (JObj kvs) =
        (if map_of kvs ''toString'' = None then Inr ''[object Object]''
         else Inl (TypeError ''Cannot convert object to primitive value''))"
    by simp
next
  show "truthy v = (v \<noteq> JNull \<and> v \<noteq> JBool False \<and> v \<noteq> JStr [] \<and> (\<forall>text. v \<noteq> JNum True text))"
    by (rule truthy_cases)
next
  assume "headers req ''authorization'' = Some y \<and> y \<noteq> []"
  then show "header_after_onConnect ''authorization'' toLowerCase params sock req socketId = Some y"
    by (simp add: onConnect_header_kept)
next
  assume "lowerCaseKeys toLowerCase params = Inr normalized
       \<and> \<not> truthy_opt (memo_get normalized ''authorization'')"
  then show "header_after_onConnect ''authorization'' toLowerCase params sock req socketId
            = headers req ''authorization''"
    by (simp add: onConnect_entry_falsy)
next
  assume "params = None \<or> params = Some JNull"
  then have "lowerCaseKeys toLowerCase params
      = Inl (TypeError ''Cannot convert undefined or null to object'')"
    by (auto simp: lowerCaseKeys_def own_entries_def)
  from onConnect_lowerCaseKeys_throws [OF this]
  show "header_after_onConnect name toLowerCase params sock req socketId = headers req name"
    and "onConnect_thrown toLowerCase params sock req socketId
              = Some (TypeError ''Cannot convert undefined or null to object'')"
    by simp_all
next
  assume "name \<noteq> ''authorization''"
  then show "header_after_onConnect name toLowerCase params sock req socketId = headers req name"
    by (rule onConnect_other_headers)
qed

theorem authorization_backfill_witness:
  "header_after_onConnect ''authorization'' ascii_toLowerCase
       (Some (JObj [(''Authorization'', JStr ''Bearer X'')])) ws0 (request_to ''/graphql'') 0
     = Some ''Bearer X''
   \<and> header_after_onConnect ''authorization'' ascii_toLowerCase
       (Some (JObj [(''__proto__'', JObj [(''authorization'', JStr ''Bearer P'')])])) ws0
       (request_to ''/graphql'') 0
     = Some ''Bearer P''
   \<and> onConnect_thrown ascii_toLowerCase
       (Some (JObj [(''authorization'', JObj [(''toString'', JNull)])])) ws0
       (request_to ''/graphql'') 0
     = Some (TypeError ''Cannot convert object to primitive value'')
   \<and> header_after_onConnect ''authorization'' ascii_toLowerCase
       (Some (JObj [(''Authorization'', JStr ''Bearer X'')])) ws0
       (request_with_authorization ''Bearer Y'') 0
     = Some ''Bearer Y''
   \<and> header_after_onConnect ''authorization'' ascii_toLowerCase
       (Some (JObj [(''authorization'', JNum True ''0'')])) ws0 (request_to ''/graphql'') 0
     = None
   \<and> onConnect_thrown ascii_toLowerCase None ws0 (request_with_authorization ''Bearer Y'') 0
     = Some (TypeError ''Cannot convert undefined or null to object'')
   \<and> header_after_onConnect ''origin'' ascii_toLowerCase
       (Some (JObj [(''Origin'', JStr ''example.org'')])) ws0 (request_to ''/graphql'') 0
     = None"
proof -
  let ?none = "request_to ''/graphql''"
  let ?px = "Some (JObj [(''Authorization'', JStr ''Bearer X'')])"
  let ?pp = "Some (JObj [(''__proto__'', JObj [(''authorization'', JStr ''Bearer P'')])])"
  let ?pt = "Some (JObj [(''authorization'', JObj [(''toString'', JNull)])])"
  let ?pz = "Some (JObj [(''authorization'', JNum True ''0'')])"
  let ?po = "Some (JObj [(''Origin'', JStr ''example.org'')])"
  let ?mx = "\<lparr>memo_own = [''authorization'' \<mapsto> JStr ''Bearer X''], memo_proto = ObjectPrototype\<rparr>"
  let ?mp = "\<lparr>memo_own = Map.empty,
     memo_proto = ProtoValue (JObj [(''authorization'', JStr ''Bearer P'')])\<rparr>"
  let ?mt = "\<lparr>memo_own = [''authorization'' \<mapsto> JObj [(''toString'', JNull)]],
     memo_proto = ObjectPrototype\<rparr>"
  let ?mz = "\<lparr>memo_own = [''authorization'' \<mapsto> JNum True ''0''], memo_proto = ObjectPrototype\<rparr>"
  have h0: "headers ?none ''authorization'' = None" and ho: "headers ?none ''origin'' = None"
    by (simp_all add: request_to_def)
  have hy: "headers (request_with_authorization ''Bearer Y'') ''authorization'' = Some ''Bearer Y''"
    by (simp add: request_with_authorization_def request_to_def)
  have nx: "lowerCaseKeys ascii_toLowerCase ?px = Inr ?mx"
    and np: "lowerCaseKeys ascii_toLowerCase ?pp = Inr ?mp"
    and nt: "lowerCaseKeys ascii_toLowerCase ?pt = Inr ?mt"
    and nz: "lowerCaseKeys ascii_toLowerCase ?pz = Inr ?mz"
    by (simp_all add: lowerCaseKeys_def own_entries_def memo_set_def inherits_proto_setter_def
        empty_memo_def ascii_toLowerCase_def lower_char_def)
  have gx: "memo_get ?mx ''authorization'' = Some (JStr ''Bearer X'')"
    and gp: "memo_get ?mp ''authorization'' = Some (JStr ''Bearer P'')"
    and gt: "memo_get ?mt ''authorization'' = Some (JObj [(''toString'', JNull)])"
    and gz: "\<not> truthy_opt (memo_get ?mz ''authorization'')"
    by (simp_all add: memo_get_def truthy_opt_def)
  have "lowerCaseKeys ascii_toLowerCase ?px = Inr ?mx
      \<and> (headers ?none ''authorization'' = None \<or> headers ?none ''authorization'' = Some [])
      \<and> memo_get ?mx ''authorization'' = Some (JStr ''Bearer X'') \<and> truthy (JStr ''Bearer X'')
      \<and> js_String (JStr ''Bearer X'') = Inr ''Bearer X''"
    using nx h0 gx by simp
  with authorization_backfill [where toLowerCase = ascii_toLowerCase and params = ?px
      and normalized = ?mx and req = ?none and v = "JStr ''Bearer X''" and s = "''Bearer X''"
      and sock = ws0 and socketId = 0]
  have 1: "header_after_onConnect ''authorization'' ascii_toLowerCase ?px ws0 ?none 0
      = Some ''Bearer X''"
    by blast
  have "lowerCaseKeys ascii_toLowerCase ?pp = Inr ?mp
      \<and> (headers ?none ''authorization'' = None \<or> headers ?none ''authorization'' = Some [])
      \<and> memo_get ?mp ''authorization'' = Some (JStr ''Bearer P'') \<and> truthy (JStr ''Bearer P'')
      \<and> js_String (JStr ''Bearer P'') = Inr ''Bearer P''"
    using np h0 gp by simp
  with authorization_backfill [where toLowerCase = ascii_toLowerCase and params = ?pp
      and normalized = ?mp and req = ?none and v = "JStr ''Bearer P''" and s = "''Bearer P''"
      and sock = ws0 and socketId = 0]
  have 2: "header_after_onConnect ''authorization'' ascii_toLowerCase ?pp ws0 ?none 0
      = Some ''Bearer P''"
    by blast
  have "lowerCaseKeys ascii_toLowerCase ?pt = Inr ?mt
      \<and> (headers ?none ''authorization'' = None \<or> headers ?none ''authorization'' = Some [])
      \<and> memo_get ?mt ''authorization'' = Some (JObj [(''toString'', JNull)])
      \<and> truthy (JObj [(''toString'', JNull)])
      \<and> js_String (JObj [(''toString'', JNull)])
          = Inl (TypeError ''Cannot convert object to primitive value'')"
    using nt h0 gt by simp
  with authorization_backfill [where toLowerCase = ascii_toLowerCase and params = ?pt
      and normalized = ?mt and req = ?none and v = "JObj [(''toString'', JNull)]"
      and e = "TypeError ''Cannot convert object to primitive value''"
      and sock = ws0 and socketId = 0]
  have 3: "onConnect_thrown ascii_toLowerCase ?pt ws0 ?none 0
      = Some (TypeError ''Cannot convert object to primitive value'')"
    by blast
  have "headers (request_with_authorization ''Bearer Y'') ''authorization'' = Some ''Bearer Y''
      \<and> ''Bearer Y'' \<noteq> []"
    using hy by simp
  with authorization_backfill [where toLowerCase = ascii_toLowerCase and params = ?px
      and req = "request_with_authorization ''Bearer Y''" and y = "''Bearer Y''"
      and sock = ws0 and socketId = 0]
  have 4: "header_after_onConnect ''authorization'' ascii_toLowerCase ?px ws0
      (request_with_authorization ''Bearer Y'') 0 = Some ''Bearer Y''"
    by blast
  have "lowerCaseKeys ascii_toLowerCase ?pz = Inr ?mz
      \<and> \<not> truthy_opt (memo_get ?mz ''authorization'')"
    using nz gz by simp
  with authorization_backfill [where toLowerCase = ascii_toLowerCase and params = ?pz
      and normalized = ?mz and req = ?none and sock = ws0 and socketId = 0]
  have "header_after_onConnect ''authorization'' ascii_toLowerCase ?pz ws0 ?none 0
      = headers ?none ''authorization''"
    by blast
  with h0 have 5: "header_after_onConnect ''authorization'' ascii_toLowerCase ?pz ws0 ?none 0 = None"
    by simp
  from authorization_backfill [where toLowerCase = ascii_toLowerCase and params = None
      and req = "request_with_authorization ''Bearer Y''" and sock = ws0 and socketId = 0]
  have 6: "onConnect_thrown ascii_toLowerCase None ws0 (request_with_authorization ''Bearer Y'') 0
      = Some (TypeError ''Cannot convert undefined or null to object'')"
    by blast
  have "''origin'' \<noteq> ''authorization''" by simp
  with authorization_backfill [where toLowerCase = ascii_toLowerCase and params = ?po
      and req = ?none and name = "''origin''" and sock = ws0 and socketId = 0]
  have "header_after_onConnect ''origin'' ascii_toLowerCase ?po ws0 ?none 0
      = headers ?none ''origin''"
    by blast
  with ho have 7: "header_after_onConnect ''origin'' ascii_toLowerCase ?po ws0 ?none 0 = None"
    by simp
  from 1 2 3 4 5 6 7 show ?thesis by blast
qed

subsection \<open>How often the middleware chain runs\<close>

lemmas bridge_eval =
  run_bridge_def reqResFromSocket_enter_def reqResFromSocket_resume_def connected_def
  options_with_def accepting_def refusing_def middlewares_of_def request_to_def

text \<open>
  C2, as the claim states it, fails: the pseudo-response is cached only after the
  awaited chain has completed, and nothing records a chain in flight. Two operations
  that call \<open>reqResFromSocket\<close> before the first chain settles each start the chain; and
  after a chain that was rejected the next call starts it again.
\<close>

theorem middleware_once_counterexample:
  "passes (run_bridge (options_with [accepting]) (connected (request_to ''/graphql''))
       [CallReqRes, CallReqRes, SettleChain 0, SettleChain 0]) = 2
   \<and> passes (run_bridge (options_with [refusing]) (connected (request_to ''/graphql''))
       [CallReqRes, SettleChain 0, CallReqRes, SettleChain 0]) = 2"
  by (simp add: bridge_eval)

lemma step_cached:
  assumes "postgraphileRes (bridge_socket b) \<noteq> None"
  shows "postgraphileRes (bridge_socket (bridge_step opts b ev)) \<noteq> None
    \<and> passes (bridge_step opts b ev) = passes b"
proof (cases ev)
  case CallReqRes
  with assms show ?thesis
    by (auto simp: reqResFromSocket_enter_def split: option.splits)
next
  case (SettleChain i)
  with assms show ?thesis
    by (auto simp: reqResFromSocket_resume_def split: prod.splits outcome.splits)
qed

lemma run_cached:
  "postgraphileRes (bridge_socket b) \<noteq> None \<Longrightarrow>
     postgraphileRes (bridge_socket (run_bridge opts b evs)) \<noteq> None
     \<and> passes (run_bridge opts b evs) = passes b"
  unfolding run_bridge_def
proof (induction evs arbitrary: b)
  case Nil
  then show ?case by simp
next
  case (Cons ev evs)
  from step_cached [OF Cons.prems, of opts ev] Cons.IH [of "bridge_step opts b ev"]
  show ?case by simp
qed

lemma run_bridge_append:
  "run_bridge opts b (xs @ ys) = run_bridge opts (run_bridge opts b xs) ys"
  by (simp add: run_bridge_def)

lemma first_call_completes:
  assumes "suspended b = []" and "postgraphileRes (bridge_socket b) = None"
    and "postgraphileReq (bridge_socket b) = Some req" and "\<not> res req"
    and "applyMiddleware (middlewares_of opts) req (ServerResponse req) = Completed"
  shows "run_bridge opts b [CallReqRes, SettleChain 0] =
    b\<lparr>bridge_socket := (bridge_socket b)\<lparr>postgraphileRes := Some (ServerResponse req)\<rparr>,
      suspended := [], passes := passes b + 1\<rparr>"
  using assms
  by (simp add: run_bridge_def reqResFromSocket_enter_def reqResFromSocket_resume_def)

text \<open>
  C2, amended. Once a chain has completed and the pseudo-response is cached on the
  socket, no call of \<open>reqResFromSocket\<close> starts the chain again, whatever calls and
  settlings follow. So when the first call on a socket is resumed by a completed chain
  before any other call starts, the chain runs exactly once over all that follows on the
  socket, in any interleaving. A chain that is rejected caches nothing: the socket is
  left as it was, for the next call to start the chain again.
\<close>

theorem middleware_once_after_first_pass:
  "(postgraphileRes (bridge_socket b) \<noteq> None \<longrightarrow> passes (run_bridge opts b evs) = passes b)
   \<and> (suspended b = [] \<and> postgraphileRes (bridge_socket b) = None
        \<and> postgraphileReq (bridge_socket b) = Some req \<and> \<not> res req
        \<and> applyMiddleware (middlewares_of opts) req (ServerResponse req) = Completed
      \<longrightarrow> passes (run_bridge opts b ([CallReqRes, SettleChain 0] @ evs)) = passes b + 1
          \<and> postgraphileRes (bridge_socket (run_bridge opts b ([CallReqRes, SettleChain 0] @ evs)))
              \<noteq> None)
   \<and> (suspended b = [] \<and> postgraphileRes (bridge_socket b) = None
        \<and> postgraphileReq (bridge_socket b) = Some req \<and> \<not> res req
        \<and> applyMiddleware (middlewares_of opts) req (ServerResponse req) = Rejected e
      \<longrightarrow> run_bridge opts b [CallReqRes, SettleChain 0] = b\<lparr>passes := passes b + 1\<rparr>)"
proof (intro conjI impI)
  assume "postgraphileRes (bridge_socket b) \<noteq> None"
  then show "passes (run_bridge opts b evs) = passes b"
    by (simp add: run_cached)
next
  assume a: "suspended b = [] \<and> postgraphileRes (bridge_socket b) = None
        \<and> postgraphileReq (bridge_socket b) = Some req \<and> \<not> res req
        \<and> applyMiddleware (middlewares_of opts) req (ServerResponse req) = Completed"
  let ?b1 = "run_bridge opts b [CallReqRes, SettleChain 0]"
  from a have b1: "?b1 =
    b\<lparr>bridge_socket := (bridge_socket b)\<lparr>postgraphileRes := Some (ServerResponse req)\<rparr>,
      suspended := [], passes := passes b + 1\<rparr>"
    by (intro first_call_completes) simp_all
  then have cached: "postgraphileRes (bridge_socket ?b1) \<noteq> None" by simp
  from run_cached [OF cached, of opts evs] b1
  show "passes (run_bridge opts b ([CallReqRes, SettleChain 0] @ evs)) = passes b + 1"
    unfolding run_bridge_append by simp
  from run_cached [OF cached, of opts evs]
  show "postgraphileRes (bridge_socket (run_bridge opts b ([CallReqRes, SettleChain 0] @ evs)))
      \<noteq> None"
    unfolding run_bridge_append by simp
next
  assume "suspended b = [] \<and> postgraphileRes (bridge_socket b) = None
        \<and> postgraphileReq (bridge_socket b) = Some req \<and> \<not> res req
        \<and> applyMiddleware (middlewares_of opts) req (ServerResponse req) = Rejected e"
  then show "run_bridge opts b [CallReqRes, SettleChain 0] = b\<lparr>passes := passes b + 1\<rparr>"
    by (simp add: run_bridge_def reqResFromSocket_enter_def reqResFromSocket_resume_def)
qed

theorem middleware_once_after_first_pass_witness:
  "passes (run_bridge (options_with [accepting]) (connected (request_to ''/graphql''))
     ([CallReqRes, SettleChain 0] @ [CallReqRes, CallReqRes, SettleChain 0, CallReqRes])) = 1
   \<and> passes (run_bridge (options_with [refusing])
         (run_bridge (options_with [accepting]) (connected (request_to ''/graphql''))
            [CallReqRes, SettleChain 0])
         [CallReqRes, CallReqRes, SettleChain 0]) = 1
   \<and> run_bridge (options_with [refusing]) (connected (request_to ''/graphql''))
       [CallReqRes, SettleChain 0] = (connected (request_to ''/graphql''))\<lparr>passes := 1\<rparr>"
proof -
  let ?b1 = "run_bridge (options_with [accepting]) (connected (request_to ''/graphql''))
            [CallReqRes, SettleChain 0]"
  have b1: "postgraphileRes (bridge_socket ?b1) \<noteq> None" and p1: "passes ?b1 = 1"
    by (simp_all add: bridge_eval)
  have "passes (run_bridge (options_with [accepting]) (connected (request_to ''/graphql''))
     ([CallReqRes, SettleChain 0] @ [CallReqRes, CallReqRes, SettleChain 0, CallReqRes])) = 1"
    using middleware_once_after_first_pass [of "connected (request_to ''/graphql'')"
      "options_with [accepting]" "[CallReqRes, CallReqRes, SettleChain 0, CallReqRes]"
      "request_to ''/graphql''"]
    by (simp add: connected_def options_with_def accepting_def middlewares_of_def request_to_def)
  moreover
  have "passes (run_bridge (options_with [refusing]) ?b1 [CallReqRes, CallReqRes, SettleChain 0]) = 1"
    using middleware_once_after_first_pass [of ?b1 "options_with [refusing]"
      "[CallReqRes, CallReqRes, SettleChain 0]" "request_to ''/graphql''"] b1 p1
    by simp
  moreover
  have "run_bridge (options_with [refusing]) (connected (request_to ''/graphql''))
      [CallReqRes, SettleChain 0] = (connected (request_to ''/graphql''))\<lparr>passes := 1\<rparr>"
    using middleware_once_after_first_pass [of "connected (request_to ''/graphql'')"
      "options_with [refusing]" "[]" "request_to ''/graphql''" "Error ''unauthorized'' None"]
    by (simp add: connected_def options_with_def refusing_def middlewares_of_def request_to_def)
  ultimately show ?thesis by simp
qed

subsection \<open>Validation errors of an operation\<close>

lemma join_contains:
  "x \<in> set xs \<Longrightarrow> \<exists>pre post. join sep xs = pre @ x @ post"
proof (induction sep xs rule: join.induct)
  case (1 sep)
  then show ?case by simp
next
  case (2 sep y)
  then have "join sep [y] = [] @ x @ []" by simp
  then show ?case by blast
next
  case (3 sep y z zs)
  show ?case
  proof (cases "x = y")
    case True
    then have "join sep (y # z # zs) = [] @ x @ (sep @ join sep (z # zs))" by simp
    then show ?thesis by blast
  next
    case False
    with "3.prems" have "x \<in> set (z # zs)" by simp
    from "3.IH" [OF this] obtain pre post where "join sep (z # zs) = pre @ x @ post" by blast
    then have "join sep (y # z # zs) = (y @ sep @ pre) @ x @ post" by simp
    then show ?thesis by blast
  qed
qed

text \<open>
  C5. Let the awaits of the handler succeed, let the operation hook (if there is one)
  return \<open>hooked\<close> and leave the \<open>params\<close> object as \<open>p2\<close>, and let the query of
  \<open>hooked\<close> parse. When the rules hook, called with the variables and operation name
  of \<open>p2\<close>, gives at least one per-operation rule and leaves the \<open>params\<close> object as
  \<open>p3\<close>, and \<open>validate\<close> with the schema of \<open>p3\<close> and these rules gives at least one
  error, the handler fails with one error: its message is the fixed prefix followed by
  the messages of all validation errors joined by newlines, so that each of them occurs
  in it, and its \<open>errors\<close> property is the whole list of validation errors.
\<close>

theorem validation_errors_aggregate:
  assumes "hookedParams c (prepared_params p ctx newSchema req dummyRes) = Inr (hooked, p2)"
    and "final_query c hooked = Inr doc"
    and "on_validationRules (pluginHook c) [] req dummyRes
           (params_variables p2) (params_operationName p2) p2 = Inr (rules, p3)"
    and "validate c (params_schema p3) doc rules = Inr errs"
    and "rules \<noteq> []" and "errs \<noteq> []"
  shows "onOperation c (Inr ctx) (Inr newSchema) (Inr (req, dummyRes)) p =
      Inl (Error (''Query validation failed: \<newline>'' @ join ''\<newline>'' (map message errs))
             (Some errs))
    \<and> (\<forall>e. e \<in> set errs \<longrightarrow>
          (\<exists>pre post. ''Query validation failed: \<newline>'' @ join ''\<newline>'' (map message errs)
             = pre @ message e @ post))"
proof
  show "onOperation c (Inr ctx) (Inr newSchema) (Inr (req, dummyRes)) p =
      Inl (Error (''Query validation failed: \<newline>'' @ join ''\<newline>'' (map message errs))
             (Some errs))"
    using assms by (simp add: onOperation_def Let_def)
next
  show "\<forall>e. e \<in> set errs \<longrightarrow>
          (\<exists>pre post. ''Query validation failed: \<newline>'' @ join ''\<newline>'' (map message errs)
             = pre @ message e @ post)"
  proof (intro allI impI)
    fix e assume "e \<in> set errs"
    then have "message e \<in> set (map message errs)" by simp
    from join_contains [OF this, of "''\<newline>''"] obtain pre post
      where "join ''\<newline>'' (map message errs) = pre @ message e @ post" by blast
    then have "''Query validation failed: \<newline>'' @ join ''\<newline>'' (map message errs)
        = (''Query validation failed: \<newline>'' @ pre) @ message e @ post"
      by simp
    then show "\<exists>pre post. ''Query validation failed: \<newline>'' @ join ''\<newline>'' (map message errs)
             = pre @ message e @ post"
      by blast
  qed
qed

theorem validation_errors_aggregate_witness:
  "onOperation rejecting_collaborators (Inr Map.empty) (Inr 1)
       (Inr (request_to ''/graphql'', ServerResponse (request_to ''/graphql'')))
       subscription_params =
     Inl (Error ''Query validation failed: \<newline>depth limit exceeded\<newline>cost limit exceeded''
            (Some [\<lparr>message = ''depth limit exceeded''\<rparr>, \<lparr>message = ''cost limit exceeded''\<rparr>]))"
proof -
  let ?req = "request_to ''/graphql''"
  let ?p1 = "prepared_params subscription_params Map.empty (1::nat) ?req (ServerResponse ?req)"
  let ?p2 = "?p1\<lparr>params_operationName := Some ''Tick''\<rparr>"
  have h: "hookedParams rejecting_collaborators ?p1 = Inr (?p2, ?p2)"
    by (simp add: hookedParams_def rejecting_collaborators_def naming_hook_def)
  have q: "final_query rejecting_collaborators ?p2 = Inr ''subscription { tick }''"
    by (simp add: final_query_def rejecting_collaborators_def prepared_params_def
        subscription_params_def)
  have r: "on_validationRules (pluginHook rejecting_collaborators) [] ?req (ServerResponse ?req)
      (params_variables ?p2) (params_operationName ?p2) ?p2 = Inr ([''depth'', ''cost''], ?p2)"
    by (simp add: rejecting_collaborators_def naming_hook_def)
  have e: "validate rejecting_collaborators (params_schema ?p2) ''subscription { tick }''
          [''depth'', ''cost'']
      = Inr [\<lparr>message = ''depth limit exceeded''\<rparr>, \<lparr>message = ''cost limit exceeded''\<rparr>]"
    by (simp add: rejecting_collaborators_def)
  from validation_errors_aggregate [OF h q r e]
  show ?thesis by simp
qed

end
